theory Spec2Isabelle
  imports Main
begin

section \<open>Text\<close>

text \<open>
  A Python \<open>str\<close> is modelled as a \<open>string\<close>, each \<open>char\<close> read as the code point of the
  same number (0 to 255); text with code points above 255 is outside the model. The SSH
  config file is modelled by the text that Python's text
  layer exchanges with the operating system on a POSIX host: what is written is stored as
  it is, and what is read goes through universal-newline translation.
\<close>

abbreviation LF :: char where "LF \<equiv> CHR 0x0A"
abbreviation CR :: char where "CR \<equiv> CHR 0x0D"
abbreviation BACKSLASH :: char where "BACKSLASH \<equiv> CHR 0x5C"
abbreviation APOSTROPHE :: char where "APOSTROPHE \<equiv> CHR 0x27"

text \<open>
  The characters that \<open>\s\<close> and \<open>str.strip()\<close> treat as whitespace: tab to carriage return,
  the four separators 0x1C to 0x1F, the space, NEL (0x85) and the no-break space (0xA0).
\<close>

definition py_isspace :: "char \<Rightarrow> bool" where
  "py_isspace c =
     (let n = (of_char c :: nat)
      in (9 \<le> n \<and> n \<le> 13) \<or> (28 \<le> n \<and> n \<le> 32) \<or> n = 133 \<or> n = 160)"

text \<open>
  Lower-casing as \<open>re.IGNORECASE\<close> applies it to both sides of a literal comparison:
  \<open>A\<close> to \<open>Z\<close> and the Latin-1 capitals 0xC0 to 0xDE (the multiplication sign 0xD7 apart)
  move up by 32.
\<close>

definition py_lower :: "char \<Rightarrow> char" where
  "py_lower c =
     (let n = (of_char c :: nat)
      in if (65 \<le> n \<and> n \<le> 90) \<or> (192 \<le> n \<and> n \<le> 222 \<and> n \<noteq> 215)
         then char_of (n + 32) else c)"

text \<open>\<open>str.strip()\<close> with no argument.\<close>

definition py_strip :: "string \<Rightarrow> string" where
  "py_strip s = rev (dropWhile py_isspace (rev (dropWhile py_isspace s)))"

fun starts_with :: "string \<Rightarrow> string \<Rightarrow> bool" where
  "starts_with [] s = True"
| "starts_with (x # xs) [] = False"
| "starts_with (x # xs) (c # cs) = (x = c \<and> starts_with xs cs)"

text \<open>The substring test \<open>sub in s\<close>.\<close>

fun py_in :: "string \<Rightarrow> string \<Rightarrow> bool" where
  "py_in sub [] = (sub = [])"
| "py_in sub (c # cs) = (starts_with sub (c # cs) \<or> py_in sub cs)"

text \<open>An f-string field written between apostrophes, as in \<open>'{host}'\<close>.\<close>

definition quoted :: "string \<Rightarrow> string" where
  "quoted s = APOSTROPHE # s @ [APOSTROPHE]"

text \<open>
  Reading in text mode with the default \<open>newline=None\<close>: \<open>\r\n\<close> and a lone \<open>\r\<close> both
  arrive as \<open>\n\<close>.
\<close>

fun universal_newlines :: "string \<Rightarrow> string" where
  "universal_newlines [] = []"
| "universal_newlines [c] = (if c = CR then [LF] else [c])"
| "universal_newlines (c # d # cs) =
     (if c = CR
      then (if d = LF then LF # universal_newlines cs else LF # universal_newlines (d # cs))
      else c # universal_newlines (d # cs))"

text \<open>Cutting a text after every \<open>\n\<close>; the terminator stays on its line.\<close>

fun split_lines :: "string \<Rightarrow> string list" where
  "split_lines [] = []"
| "split_lines (c # cs) =
     (if c = LF then [LF] # split_lines cs
      else (case split_lines cs of [] \<Rightarrow> [[c]] | l # ls \<Rightarrow> (c # l) # ls))"

text \<open>\<open>f.readlines()\<close>, and equally \<open>for line in f\<close>, on a file opened with mode \<open>'r'\<close>.\<close>

definition readlines :: "string \<Rightarrow> string list" where
  "readlines content = split_lines (universal_newlines content)"

text \<open>
  A line as \<open>readlines\<close> yields it from a file that ends with a newline and has no carriage
  return: it ends with its only \<open>\n\<close>.
\<close>

definition complete_line :: "string \<Rightarrow> bool" where
  "complete_line l = (l \<noteq> [] \<and> last l = LF \<and> LF \<notin> set (butlast l) \<and> CR \<notin> set l)"

section \<open>Regular expressions\<close>

text \<open>
  The patterns of the program use anchors, literals, the classes \<open>\s\<close> and \<open>.\<close>, the greedy
  quantifiers \<open>*\<close> and \<open>+\<close> on a single character, and one capturing group. A pattern is the
  list of its items, matched from left to right by backtracking, a greedy quantifier
  trying the longest run first. The result is the end position of the match and the
  positions at which the group was opened and closed.
\<close>

datatype atom = Whitespace | AnyChar | Literal char

datatype item = Once atom | Star atom | Plus atom | Caret | Dollar | GroupOpen | GroupClose

fun accepts :: "bool \<Rightarrow> atom \<Rightarrow> char \<Rightarrow> bool" where
  "accepts ic Whitespace c = py_isspace c"
| "accepts ic AnyChar c = (c \<noteq> LF)"
| "accepts ic (Literal l) c = (if ic then py_lower c = py_lower l else c = l)"

fun run :: "bool \<Rightarrow> item list \<Rightarrow> nat \<Rightarrow> string \<Rightarrow> nat list \<Rightarrow> (nat \<times> nat list) option" where
  "run ic [] pos s marks = Some (pos, marks)"
| "run ic (Once a # is) pos [] marks = None"
| "run ic (Once a # is) pos (c # cs) marks =
     (if accepts ic a c then run ic is (Suc pos) cs marks else None)"
| "run ic (Star a # is) pos [] marks = run ic is pos [] marks"
| "run ic (Star a # is) pos (c # cs) marks =
     (if accepts ic a c
      then (case run ic (Star a # is) (Suc pos) cs marks of
              Some r \<Rightarrow> Some r
            | None \<Rightarrow> run ic is pos (c # cs) marks)
      else run ic is pos (c # cs) marks)"
| "run ic (Plus a # is) pos [] marks = None"
| "run ic (Plus a # is) pos (c # cs) marks =
     (if accepts ic a c then run ic (Star a # is) (Suc pos) cs marks else None)"
| "run ic (Caret # is) pos s marks = (if pos = 0 then run ic is pos s marks else None)"
| "run ic (Dollar # is) pos s marks =
     (if s = [] \<or> s = [LF] then run ic is pos s marks else None)"
| "run ic (GroupOpen # is) pos s marks = run ic is pos s (marks @ [pos])"
| "run ic (GroupClose # is) pos s marks = run ic is pos s (marks @ [pos])"

text \<open>\<open>re.match(pattern, line, flags)\<close>; \<open>ic\<close> says whether \<open>re.IGNORECASE\<close> is passed.\<close>

definition re_match :: "bool \<Rightarrow> item list \<Rightarrow> string \<Rightarrow> (nat \<times> nat list) option" where
  "re_match ic pattern line = run ic pattern 0 line []"

definition matches :: "bool \<Rightarrow> item list \<Rightarrow> string \<Rightarrow> bool" where
  "matches ic pattern line = (re_match ic pattern line \<noteq> None)"

text \<open>\<open>match.group(1)\<close> for a pattern with one group.\<close>

fun group1 :: "string \<Rightarrow> nat \<times> nat list \<Rightarrow> string" where
  "group1 line (e, [b, c]) = take (c - b) (drop b line)"
| "group1 line (e, marks) = []"

text \<open>A literal string inside a pattern; \<open>re.escape\<close> makes its argument one.\<close>

definition literal :: "string \<Rightarrow> item list" where
  "literal s = map (\<lambda>c. Once (Literal c)) s"

definition re_escape :: "string \<Rightarrow> item list" where
  "re_escape s = literal s"

text \<open>\<open>^\s*Host\s+\<close>\<close>

definition host_decl_re :: "item list" where
  "host_decl_re = [Caret, Star Whitespace] @ literal ''Host'' @ [Plus Whitespace]"

text \<open>\<open>^\s*Host\s+\<close> followed by the escaped name and \<open>\s*$\<close>\<close>

definition host_name_re :: "string \<Rightarrow> item list" where
  "host_name_re name =
     [Caret, Star Whitespace] @ literal ''Host'' @ [Plus Whitespace] @ re_escape name
       @ [Star Whitespace, Dollar]"

text \<open>\<open>^\s*HostName\s+\<close>\<close>

definition hostname_decl_re :: "item list" where
  "hostname_decl_re = [Caret, Star Whitespace] @ literal ''HostName'' @ [Plus Whitespace]"

text \<open>\<open>^\s*Host\s+(.+)\<close>\<close>

definition host_value_re :: "item list" where
  "host_value_re =
     [Caret, Star Whitespace] @ literal ''Host''
       @ [Plus Whitespace, GroupOpen, Plus AnyChar, GroupClose]"

text \<open>\<open>^\s*HostName\s+(.+)\<close>\<close>

definition hostname_value_re :: "item list" where
  "hostname_value_re =
     [Caret, Star Whitespace] @ literal ''HostName''
       @ [Plus Whitespace, GroupOpen, Plus AnyChar, GroupClose]"

text \<open>\<open>(^\s*HostName\s+).*\<close>\<close>

definition hostname_sub_re :: "item list" where
  "hostname_sub_re =
     [GroupOpen, Caret, Star Whitespace] @ literal ''HostName''
       @ [Plus Whitespace, GroupClose, Star AnyChar]"

section \<open>The runtime and the world\<close>

text \<open>
  Three services of the Python runtime are used by the program and defined outside the
  repository; they are parameters of the model. \<open>subprocess_run\<close> is the external process:
  it maps the command to its exit status, standard output and standard error.
  \<open>template_escapes new_ip\<close> is what \<open>re\<close> makes of a replacement template \<open>\g<1>\<close>
  followed by a text \<open>new_ip\<close> that contains a backslash: the message of the exception that
  parsing the template raises, or the function that expands the parsed template for a
  group 1 and a whole match.
  \<open>repr_str\<close> is \<open>repr\<close> on a \<open>str\<close>.
\<close>

record runtime =
  subprocess_run :: "string list \<Rightarrow> int \<times> string \<times> string"
  template_escapes :: "string \<Rightarrow> string + (string \<Rightarrow> string \<Rightarrow> string)"
  repr_str :: "string \<Rightarrow> string"

datatype exn = FileNotFoundError string | ReError string | SystemExit string

text \<open>\<open>str(e)\<close>\<close>

fun exn_text :: "exn \<Rightarrow> string" where
  "exn_text (FileNotFoundError t) = t"
| "exn_text (ReError t) = t"
| "exn_text (SystemExit t) = t"

text \<open>Whether \<open>except Exception\<close> catches it: \<open>SystemExit\<close> is not an \<open>Exception\<close>.\<close>

fun is_Exception :: "exn \<Rightarrow> bool" where
  "is_Exception (SystemExit t) = False"
| "is_Exception e = True"

text \<open>
  The world is the SSH config file (\<open>None\<close> when \<open>ssh_config_path\<close> is not a file) and the
  lines printed so far.
\<close>

record world =
  ssh_config_file :: "string option"
  stdout :: "string list"

definition print :: "string \<Rightarrow> world \<Rightarrow> world" where
  "print s w = w\<lparr>stdout := stdout w @ [s]\<rparr>"

text \<open>
  \<open>VMManager\<close>: the expanded default paths set in \<open>__init__\<close>, and the \<open>[settings]\<close> section
  of the configuration file as \<open>_read_config\<close> parses it (empty when the file is absent).
\<close>

record VMManager =
  default_ssh_config :: string
  ssh_dir :: string
  settings :: "string \<rightharpoonup> string"

definition ssh_config_path :: "VMManager \<Rightarrow> string" where
  "ssh_config_path m =
     (case settings m ''ssh_config'' of Some p \<Rightarrow> p | None \<Rightarrow> default_ssh_config m)"

definition get_ssh_user :: "VMManager \<Rightarrow> string" where
  "get_ssh_user m = (case settings m ''user'' of Some u \<Rightarrow> u | None \<Rightarrow> ''default_user'')"

definition get_project_and_zone :: "VMManager \<Rightarrow> exn + (string \<times> string)" where
  "get_project_and_zone m =
     (let project = settings m ''project''; zone = settings m ''zone''
      in case (project, zone) of
           (Some p, Some z) \<Rightarrow>
             if p = [] \<or> z = []
             then Inl (SystemExit ''Error: Project and Zone must be set in the config file.'')
             else Inr (p, z)
         | _ \<Rightarrow> Inl (SystemExit ''Error: Project and Zone must be set in the config file.''))"

text \<open>\<open>os.path.join\<close> of two components on POSIX.\<close>

definition path_join :: "string \<Rightarrow> string \<Rightarrow> string" where
  "path_join a b =
     (if starts_with ''/'' b then b
      else if a = [] \<or> last a = CHR ''/'' then a @ b
      else a @ ''/'' @ b)"

section \<open>Cloud control client\<close>

definition run_command :: "runtime \<Rightarrow> string list \<Rightarrow> string" where
  "run_command py command =
     (case subprocess_run py command of
        (returncode, out, err) \<Rightarrow>
          if returncode = 0 then py_strip out else ''Error: '' @ py_strip err)"

definition stop_instance :: "runtime \<Rightarrow> string \<Rightarrow> string \<Rightarrow> string \<Rightarrow> string" where
  "stop_instance py instance project zone =
     run_command py [''gcloud'', ''compute'', ''instances'', ''stop'', instance,
                     ''--project'', project, ''--zone'', zone]"

definition get_public_ip :: "runtime \<Rightarrow> string \<Rightarrow> string \<Rightarrow> string \<Rightarrow> string" where
  "get_public_ip py instance project zone =
     run_command py [''gcloud'', ''compute'', ''instances'', ''describe'', instance,
                     ''--project'', project, ''--zone'', zone,
                     ''--format=get(networkInterfaces[0].accessConfigs[0].natIP)'']"

definition start_instance :: "runtime \<Rightarrow> string \<Rightarrow> string \<Rightarrow> string \<Rightarrow> string" where
  "start_instance py instance project zone =
     run_command py [''gcloud'', ''compute'', ''instances'', ''start'', instance,
                     ''--project'', project, ''--zone'', zone]"

section \<open>SSH config editor\<close>

subsection \<open>\<open>list_hostnames\<close>\<close>

text \<open>One turn of the loop over the lines; the state is \<open>(current_host, hostnames)\<close>.\<close>

definition list_step :: "string \<Rightarrow> string option \<times> string list \<Rightarrow> string option \<times> string list" where
  "list_step line st =
     (case st of (current_host, hostnames) \<Rightarrow>
        (let current_host' =
               (case re_match True host_value_re line of
                  Some host_match \<Rightarrow> Some (group1 line host_match)
                | None \<Rightarrow> current_host)
         in (case (re_match True hostname_value_re line, current_host') of
               (Some hostname_match, Some h) \<Rightarrow>
                 if h \<noteq> []
                 then (current_host', hostnames @ [h @ '' -> '' @ group1 line hostname_match])
                 else (current_host', hostnames)
             | _ \<Rightarrow> (current_host', hostnames))))"

fun list_loop :: "string list \<Rightarrow> string option \<times> string list \<Rightarrow> string option \<times> string list" where
  "list_loop [] st = st"
| "list_loop (line # lines) st = list_loop lines (list_step line st)"

definition list_hostnames :: "VMManager \<Rightarrow> world \<Rightarrow> string list \<times> world" where
  "list_hostnames m w =
     (case ssh_config_file w of
        None \<Rightarrow> ([], print (''Error: Config file '' @ ssh_config_path m @ '' not found!'') w)
      | Some content \<Rightarrow> (snd (list_loop (readlines content) (None, [])), w))"

text \<open>
  What the two patterns of \<open>list_hostnames\<close> capture on a line: \<open>host_match.group(1)\<close> and
  \<open>hostname_match.group(1)\<close>, \<open>None\<close> when the line does not match.
\<close>

definition host_value :: "string \<Rightarrow> string option" where
  "host_value line = map_option (group1 line) (re_match True host_value_re line)"

definition hostname_value :: "string \<Rightarrow> string option" where
  "hostname_value line = map_option (group1 line) (re_match True hostname_value_re line)"

text \<open>
  Following the specification's words for \<open>listHostnames\<close>, to be compared with the loop of
  \<open>list_hostnames\<close>: the current host at line \<open>i\<close> is the name declared by the last \<open>Host\<close>
  line at or before line \<open>i\<close>, and there is none before the first \<open>Host\<close> line.
\<close>

definition current_host_at :: "string list \<Rightarrow> nat \<Rightarrow> string option" where
  "current_host_at lines i =
     (case filter (\<lambda>j. host_value (lines ! j) \<noteq> None) (rev [0..<Suc i]) of
        [] \<Rightarrow> None
      | j # js \<Rightarrow> host_value (lines ! j))"

subsection \<open>\<open>update_hostname\<close>\<close>

text \<open>
  \<open>re.sub\<close> with the pattern \<open>(^\s*HostName\s+).*\<close> (no flags) and the template \<open>\g<1>\<close>
  followed by \<open>new_ip\<close>. The template is parsed first, before any matching, and a template
  that does not parse raises there. A template without a backslash after \<open>\g<1>\<close> expands
  to group 1 followed by \<open>new_ip\<close> as it is. The pattern is anchored by \<open>^\<close>, so the only
  possible match starts at position 0; the text after it is kept, and a line without a
  match is returned as it is.
\<close>

definition compile_template ::
  "runtime \<Rightarrow> string \<Rightarrow> exn + (string \<Rightarrow> string \<Rightarrow> string)" where
  "compile_template py new_ip =
     (if BACKSLASH \<in> set new_ip
      then (case template_escapes py new_ip of
              Inl msg \<Rightarrow> Inl (ReError msg)
            | Inr expand \<Rightarrow> Inr expand)
      else Inr (\<lambda>g1 g0. g1 @ new_ip))"

definition hostname_sub :: "runtime \<Rightarrow> string \<Rightarrow> string \<Rightarrow> exn + string" where
  "hostname_sub py new_ip line =
     (case compile_template py new_ip of
        Inl e \<Rightarrow> Inl e
      | Inr expand \<Rightarrow>
          (case re_match False hostname_sub_re line of
             None \<Rightarrow> Inr line
           | Some m \<Rightarrow>
               Inr (expand (group1 line m) (take (fst m) line) @ drop (fst m) line)))"

text \<open>
  One turn of the loop; the state is \<open>(host_found, in_target_host_block, modified_lines)\<close>.
\<close>

definition update_step ::
  "runtime \<Rightarrow> string \<Rightarrow> string \<Rightarrow> string \<Rightarrow> bool \<times> bool \<times> string list
     \<Rightarrow> exn + (bool \<times> bool \<times> string list)" where
  "update_step py host new_ip line st =
     (case st of (host_found, in_target_host_block, modified_lines) \<Rightarrow>
        let in_target' =
              (if matches True host_decl_re line
               then matches True (host_name_re host) line
               else in_target_host_block);
            host_found' =
              (if matches True host_decl_re line
               then (host_found \<or> in_target')
               else host_found)
        in if in_target' \<and> matches True hostname_decl_re line
           then (case hostname_sub py new_ip line of
                   Inl e \<Rightarrow> Inl e
                 | Inr modified_line \<Rightarrow>
                     Inr (host_found', in_target', modified_lines @ [modified_line]))
           else Inr (host_found', in_target', modified_lines @ [line]))"

fun update_loop ::
  "runtime \<Rightarrow> string \<Rightarrow> string \<Rightarrow> string list \<Rightarrow> bool \<times> bool \<times> string list
     \<Rightarrow> exn + (bool \<times> bool \<times> string list)" where
  "update_loop py host new_ip [] st = Inr st"
| "update_loop py host new_ip (line # lines) st =
     (case update_step py host new_ip line st of
        Inl e \<Rightarrow> Inl e
      | Inr st' \<Rightarrow> update_loop py host new_ip lines st')"

definition update_hostname ::
  "runtime \<Rightarrow> VMManager \<Rightarrow> string \<Rightarrow> string \<Rightarrow> world \<Rightarrow> (exn + bool) \<times> world" where
  "update_hostname py m host new_ip w =
     (case ssh_config_file w of
        None \<Rightarrow>
          (Inr False, print (''Error: Config file '' @ ssh_config_path m @ '' not found!'') w)
      | Some content \<Rightarrow>
          (case update_loop py host new_ip (readlines content) (False, False, []) of
             Inl e \<Rightarrow> (Inl e, w)
           | Inr (host_found, in_target_host_block, modified_lines) \<Rightarrow>
               if \<not> host_found
               then (Inr False,
                     print (''Error: Host '' @ quoted host @ '' not found in config file!'') w)
               else (Inr True,
                     print (''Successfully updated HostName for '' @ quoted host @ '' to ''
                              @ quoted new_ip @ '' in '' @ ssh_config_path m)
                       (w\<lparr>ssh_config_file := Some (concat modified_lines)\<rparr>))))"


text \<open>
  Following the specification's words, to be compared with \<open>hostname_sub\<close>: a \<open>HostName\<close> line
  is leading whitespace, the keyword \<open>HostName\<close> and a run of whitespace after it that ends
  before the line's newline; rewriting it keeps the leading whitespace, the keyword and the
  whitespace after it on the line, puts \<open>new_ip\<close> in place of the value, and keeps the line
  from its newline on.
\<close>

definition spec_hostname_line :: "string \<Rightarrow> bool" where
  "spec_hostname_line line =
     (let r = dropWhile py_isspace line;
          gap = takeWhile py_isspace (drop 8 r)
      in starts_with ''HostName'' r \<and> gap \<noteq> [] \<and> LF \<notin> set gap)"

definition spec_set_hostname :: "string \<Rightarrow> string \<Rightarrow> string" where
  "spec_set_hostname new_ip line =
     (let indent = takeWhile py_isspace line;
          r = drop 8 (dropWhile py_isspace line);
          gap = takeWhile (\<lambda>c. py_isspace c \<and> c \<noteq> LF) r
      in indent @ ''HostName'' @ gap @ new_ip @ dropWhile (\<lambda>c. c \<noteq> LF) r)"

subsection \<open>\<open>add_host\<close>\<close>

definition new_entry :: "VMManager \<Rightarrow> string \<Rightarrow> string" where
  "new_entry m new_name =
     (let identity_file = path_join (ssh_dir m) ''google_compute_engine'';
          known_hosts_file = path_join (ssh_dir m) ''google_compute_known_hosts'';
          user = get_ssh_user m
      in [LF] @ ''Host '' @ new_name @ [LF]
         @ ''    HostName 1.1.1.1'' @ [LF]
         @ ''    IdentityFile '' @ identity_file @ [LF]
         @ ''    UserKnownHostsFile='' @ known_hosts_file @ [LF]
         @ ''    IdentitiesOnly=yes'' @ [LF]
         @ ''    CheckHostIP=no'' @ [LF]
         @ ''    User '' @ user @ [LF])"

text \<open>
  \<open>add_host\<close> opens the file for reading without testing that it exists: a missing file
  raises \<open>FileNotFoundError\<close>. Its pattern is matched without \<open>re.IGNORECASE\<close>.
\<close>

definition add_host ::
  "runtime \<Rightarrow> VMManager \<Rightarrow> string \<Rightarrow> world \<Rightarrow> (exn + bool) \<times> world" where
  "add_host py m new_name w =
     (case ssh_config_file w of
        None \<Rightarrow>
          (Inl (FileNotFoundError
                  (''[Errno 2] No such file or directory: '' @ repr_str py (ssh_config_path m))),
           w)
      | Some content \<Rightarrow>
          if list_ex (\<lambda>line. matches False (host_name_re new_name) line) (readlines content)
          then (Inr False,
                print (''Error: Host '' @ quoted new_name @ '' already exists in ''
                         @ ssh_config_path m @ ''!'') w)
          else (Inr True,
                print (''Successfully added new host '' @ quoted new_name @ '' to ''
                         @ ssh_config_path m)
                  (w\<lparr>ssh_config_file := Some (content @ new_entry m new_name)\<rparr>)))"

section \<open>Orchestrator\<close>

text \<open>The handler \<open>except Exception as e\<close> of \<open>start_vm\<close>.\<close>

definition except_Exception :: "exn \<Rightarrow> world \<Rightarrow> (exn + bool) \<times> world" where
  "except_Exception e w =
     (if is_Exception e
      then (Inr False, print (''An error occurred: '' @ exn_text e) w)
      else (Inl e, w))"

definition start_vm :: "runtime \<Rightarrow> VMManager \<Rightarrow> string \<Rightarrow> world \<Rightarrow> (exn + bool) \<times> world" where
  "start_vm py m instance w =
     (case get_project_and_zone m of
        Inl e \<Rightarrow> except_Exception e w
      | Inr (project, zone) \<Rightarrow>
          (let w1 = print (''Starting VM: '' @ instance @ ''...'') w;
               start_result = start_instance py instance project zone;
               w2 = print start_result w1
           in if py_in ''Error'' start_result
              then (Inr False, print ''Failed to start the VM.'' w2)
              else
                (let w3 = print (''Retrieving public IP for VM: '' @ instance @ ''...'') w2;
                     public_ip = get_public_ip py instance project zone
                 in if py_in ''Error'' public_ip
                    then (Inr False, print ''Failed to retrieve the public IP.'' w3)
                    else
                      (let w4 = print (''Public IP obtained: '' @ public_ip) w3
                       in (case add_host py m instance w4 of
                             (Inl e, w5) \<Rightarrow> except_Exception e w5
                           | (Inr added, w5) \<Rightarrow>
                               (case update_hostname py m instance public_ip w5 of
                                  (Inl e, w6) \<Rightarrow> except_Exception e w6
                                | (Inr update_success, w6) \<Rightarrow>
                                    if update_success
                                    then (Inr True,
                                          print (''Successfully updated SSH config for ''
                                                   @ instance @ '' with new IP: '' @ public_ip)
                                            w6)
                                    else (Inr False, w6)))))))"

section \<open>Example inputs\<close>

text \<open>
  The configuration of the specification's examples, a runtime whose external command
  succeeds and prints \<open>5.5.5.5\<close>, one whose external command fails, and a manager with
  project and zone set.
\<close>

definition two_block_config :: string where
  "two_block_config =
     ''Host a'' @ [LF] @ ''    HostName 10.0.0.1'' @ [LF]
     @ ''Host b'' @ [LF] @ ''    HostName 10.0.0.2'' @ [LF]"


definition interleaved_config :: string where
  "interleaved_config =
     ''    HostName 10.0.0.9'' @ [LF] @ ''Host a'' @ [LF] @ ''    User bob'' @ [LF]
     @ ''    HostName 10.0.0.1'' @ [LF] @ ''    Port 22'' @ [LF]
     @ ''    HostName 10.0.0.3'' @ [LF]"


definition repeated_host_config :: string where
  "repeated_host_config =
     ''Host a'' @ [LF] @ ''    User bob'' @ [LF]
     @ ''Host a'' @ [LF] @ ''    HostName 10.0.0.1'' @ [LF]"

definition no_hostname_config :: string where
  "no_hostname_config =
     ''Host a'' @ [LF] @ ''    User bob'' @ [LF]
     @ ''Host b'' @ [LF] @ ''    HostName 10.0.0.2'' @ [LF]"

definition example_runtime :: runtime where
  "example_runtime =
     \<lparr>subprocess_run = (\<lambda>command. (0, ''5.5.5.5'' @ [LF], [])),
      template_escapes = (\<lambda>new_ip. Inl ''bad escape''),
      repr_str = quoted\<rparr>"

definition failing_runtime :: runtime where
  "failing_runtime =
     \<lparr>subprocess_run = (\<lambda>command. (1, [], '' boom'' @ [LF])),
      template_escapes = (\<lambda>new_ip. Inl ''bad escape''),
      repr_str = quoted\<rparr>"

definition example_manager :: VMManager where
  "example_manager =
     \<lparr>default_ssh_config = ''/home/u/.ssh/config'',
      ssh_dir = ''/home/u/.ssh/'',
      settings = [''project'' \<mapsto> ''p'', ''zone'' \<mapsto> ''z'']\<rparr>"

definition example_world :: world where
  "example_world = \<lparr>ssh_config_file = Some two_block_config, stdout = []\<rparr>"

section \<open>Facts about the matcher\<close>

lemma run_Once:
  "run ic (Once a # is) pos s marks =
     (case s of [] \<Rightarrow> None
      | c # cs \<Rightarrow> if accepts ic a c then run ic is (Suc pos) cs marks else None)"
  by (cases s) simp_all

lemma run_Plus:
  "run ic (Plus a # is) pos s marks =
     (case s of [] \<Rightarrow> None
      | c # cs \<Rightarrow> if accepts ic a c then run ic (Star a # is) (Suc pos) cs marks else None)"
  by (cases s) simp_all

text \<open>A literal consumes itself, with or without \<open>re.IGNORECASE\<close>.\<close>

lemma run_literal:
  "run ic (literal xs @ is) pos (xs @ s) marks = run ic is (pos + length xs) s marks"
  by (induction xs arbitrary: pos) (simp_all add: literal_def)

lemma run_Star_last: "run ic [Star a] pos s marks \<noteq> None"
  by (induction s arbitrary: pos) (auto split: option.splits)

text \<open>
  A star followed by a character that its class excludes has one way to match: the whole
  run.
\<close>

lemma run_Star_skip:
  assumes "\<And>c. accepts ic a c \<Longrightarrow> \<not> accepts ic b c"
  shows "run ic (Star a # Once b # is) pos s marks =
         run ic (Once b # is) (pos + length (takeWhile (accepts ic a) s))
           (dropWhile (accepts ic a) s) marks"
  using assms by (induction s arbitrary: pos) (auto split: option.splits)

text \<open>Greediness: when the rest matches after the longest run, that is the match.\<close>

lemma run_Star_greedy:
  assumes "\<forall>c\<in>set ws. accepts ic a c" and "s = [] \<or> \<not> accepts ic a (hd s)"
    and "run ic is (pos + length ws) s marks = Some r"
  shows "run ic (Star a # is) pos (ws @ s) marks = Some r"
  using assms
proof (induction ws arbitrary: pos)
  case Nil
  then show ?case by (cases s) auto
next
  case (Cons w ws)
  then show ?case by simp
qed

text \<open>Backtracking: when the rest matches without the star taking anything, there is a match.\<close>

lemma run_Star_some:
  "run ic is pos s marks \<noteq> None \<Longrightarrow> run ic (Star a # is) pos s marks \<noteq> None"
  by (cases s) (auto split: option.splits)

text \<open>A line that matches a pattern matches every prefix of the pattern.\<close>

lemma run_prefix: "run ic (p @ q) pos s marks \<noteq> None \<Longrightarrow> run ic p pos s marks \<noteq> None"
  by (induction ic p pos s marks rule: run.induct) (auto split: option.splits if_splits)

lemma accepts_ignorecase: "accepts ic a c \<Longrightarrow> accepts True a c"
  by (cases a; cases ic) simp_all

text \<open>A match stays one when \<open>re.IGNORECASE\<close> is added.\<close>

lemma run_ignorecase: "run ic p pos s marks \<noteq> None \<Longrightarrow> run True p pos s marks \<noteq> None"
proof (induction ic p pos s marks rule: run.induct)
  case (5 ic a "is" pos c cs marks)
  then show ?case
    by (cases "accepts ic a c") (auto split: option.splits if_splits dest: accepts_ignorecase)
qed (auto split: option.splits if_splits dest: accepts_ignorecase)

lemma py_isspace_lower: "py_isspace c \<Longrightarrow> py_lower c = c"
  by (auto simp: py_isspace_def py_lower_def Let_def)

lemma space_not_N: "py_isspace c \<Longrightarrow> py_lower c \<noteq> py_lower (CHR ''N'')"
  by (auto simp: py_isspace_def py_lower_def Let_def)

lemma space_not_H: "py_isspace c \<Longrightarrow> py_lower c \<noteq> py_lower (CHR ''H'')"
  by (auto simp: py_isspace_def py_lower_def Let_def)

lemma accepts_Whitespace: "accepts ic Whitespace = py_isspace"
  by (rule ext) simp

text \<open>Leading whitespace before a literal that is not whitespace is skipped whole.\<close>

lemma run_skip_space:
  assumes "\<not> py_isspace l" and "\<not> py_isspace (py_lower l)"
  shows "run ic (Star Whitespace # Once (Literal l) # is) pos s marks =
         run ic (Once (Literal l) # is) (pos + length (takeWhile py_isspace s))
           (dropWhile py_isspace s) marks"
proof -
  have "accepts ic Whitespace c \<Longrightarrow> \<not> accepts ic (Literal l) c" for c
    using assms py_isspace_lower [of c] by (cases ic) auto
  then have "run ic (Star Whitespace # Once (Literal l) # is) pos s marks =
         run ic (Once (Literal l) # is) (pos + length (takeWhile (accepts ic Whitespace) s))
           (dropWhile (accepts ic Whitespace) s) marks"
    by (rule run_Star_skip)
  then show ?thesis
    by (simp only: accepts_Whitespace)
qed

text \<open>A \<open>Host\<close> declaration line is not a \<open>HostName\<close> line: the fifth character decides.\<close>

lemma host_decl_not_hostname:
  "matches True host_decl_re line \<Longrightarrow> \<not> matches True hostname_decl_re line"
  unfolding matches_def re_match_def host_decl_re_def hostname_decl_re_def literal_def
  by (simp add: run_skip_space py_isspace_def py_lower_def)
     (auto simp: run_Once run_Plus space_not_N split: list.splits if_splits)

section \<open>\<open>update_hostname\<close>: a host that is not in the file\<close>

lemma update_loop_no_target:
  assumes "\<forall>line\<in>set lines. \<not> matches True (host_name_re host) line"
  shows "update_loop py host new_ip lines (hf, False, ml) = Inr (hf, False, ml @ lines)"
  using assms by (induction lines arbitrary: ml) (simp_all add: update_step_def)

text \<open>
  C3. When the file exists and none of its lines matches \<open>^\s*Host\s+\<close>, the escaped host
  and \<open>\s*$\<close> (ignoring case), \<open>update_hostname\<close> prints the "not found" error, returns
  \<open>False\<close> and writes nothing: the file has the content it had.
\<close>

theorem update_hostname_host_not_found:
  assumes "ssh_config_file w = Some content"
    and "\<forall>line\<in>set (readlines content). \<not> matches True (host_name_re host) line"
  shows "update_hostname py m host new_ip w =
           (Inr False, print (''Error: Host '' @ quoted host @ '' not found in config file!'') w)
         \<and> ssh_config_file (snd (update_hostname py m host new_ip w)) = Some content"
  using assms by (simp add: update_hostname_def update_loop_no_target print_def)

theorem update_hostname_host_not_found_witness:
  "ssh_config_file example_world = Some two_block_config
   \<and> list_all (\<lambda>line. \<not> matches True (host_name_re ''c'') line) (readlines two_block_config)
   \<and> update_hostname example_runtime example_manager ''c'' ''9.9.9.9'' example_world =
       (Inr False,
        print (''Error: Host '' @ quoted ''c'' @ '' not found in config file!'') example_world)
   \<and> ssh_config_file
         (snd (update_hostname example_runtime example_manager ''c'' ''9.9.9.9'' example_world))
       = Some two_block_config"
proof -
  have h1: "ssh_config_file example_world = Some two_block_config"
    by (simp add: example_world_def)
  have h2: "\<forall>line\<in>set (readlines two_block_config). \<not> matches True (host_name_re ''c'') line"
    by code_simp
  show ?thesis
    using update_hostname_host_not_found
            [OF h1 h2, of example_runtime example_manager "''9.9.9.9''"] h1 h2
    by (simp add: print_def list_all_iff)
qed

section \<open>A missing file\<close>

text \<open>
  C9. With no SSH config file, \<open>list_hostnames\<close> and \<open>update_hostname\<close> print the error and
  return the empty list and \<open>False\<close>; \<open>add_host\<close> has no such test and raises
  \<open>FileNotFoundError\<close> from \<open>open\<close>. None of the three writes.
\<close>

theorem add_host_missing_file_raises:
  "add_host example_runtime example_manager ''c'' \<lparr>ssh_config_file = None, stdout = []\<rparr> =
     (Inl (FileNotFoundError
             (''[Errno 2] No such file or directory: '' @ quoted ''/home/u/.ssh/config'')),
      \<lparr>ssh_config_file = None, stdout = []\<rparr>)
   \<and> list_hostnames example_manager \<lparr>ssh_config_file = None, stdout = []\<rparr> =
     ([], \<lparr>ssh_config_file = None,
           stdout = [''Error: Config file /home/u/.ssh/config not found!'']\<rparr>)
   \<and> update_hostname example_runtime example_manager ''c'' ''9.9.9.9''
       \<lparr>ssh_config_file = None, stdout = []\<rparr> =
     (Inr False, \<lparr>ssh_config_file = None,
                  stdout = [''Error: Config file /home/u/.ssh/config not found!'']\<rparr>)"
  by (simp add: add_host_def list_hostnames_def update_hostname_def example_runtime_def
      example_manager_def ssh_config_path_def print_def)

section \<open>Letter case of the host name\<close>

text \<open>
  C5. \<open>update_hostname\<close> compares the host name ignoring case: asked for \<open>A\<close>, it rewrites
  the block \<open>Host a\<close>. \<open>add_host\<close> compares it exactly: asked for \<open>A\<close> on the same file,
  it finds no such host and appends a second block \<open>Host A\<close>.
\<close>

theorem add_host_case_sensitive:
  "add_host example_runtime example_manager ''A'' example_world =
     (Inr True,
      \<lparr>ssh_config_file = Some (two_block_config @ new_entry example_manager ''A''),
       stdout = [''Successfully added new host '' @ quoted ''A''
                 @ '' to /home/u/.ssh/config'']\<rparr>)
   \<and> update_hostname example_runtime example_manager ''A'' ''2.2.2.2'' example_world =
     (Inr True,
      \<lparr>ssh_config_file =
         Some (''Host a'' @ [LF] @ ''    HostName 2.2.2.2'' @ [LF]
               @ ''Host b'' @ [LF] @ ''    HostName 10.0.0.2'' @ [LF]),
       stdout = [''Successfully updated HostName for '' @ quoted ''A'' @ '' to ''
                 @ quoted ''2.2.2.2'' @ '' in /home/u/.ssh/config'']\<rparr>)"
  by code_simp

section \<open>The error channel of the cloud control client\<close>

lemma py_in_Error_prefix: "py_in ''Error'' (''Error: '' @ t)"
  by simp

text \<open>
  C10 as stated fails: the text after \<open>Error: \<close> is not the captured error stream but
  the stream stripped of the whitespace at its ends.
\<close>

theorem run_command_stderr_counterexample:
  "subprocess_run failing_runtime
     [''gcloud'', ''compute'', ''instances'', ''start'', ''d'', ''--project'', ''p'', ''--zone'', ''z'']
     = (1, [], '' boom'' @ [LF])
   \<and> start_instance failing_runtime ''d'' ''p'' ''z'' = ''Error: boom''
   \<and> start_instance failing_runtime ''d'' ''p'' ''z'' \<noteq> ''Error: '' @ ('' boom'' @ [LF])"
  by (simp add: failing_runtime_def start_instance_def run_command_def py_strip_def py_isspace_def)

lemma add_host_stdout: "set (stdout w) \<subseteq> set (stdout (snd (add_host py m n w)))"
  by (auto simp: add_host_def print_def split: option.splits)

lemma update_hostname_stdout:
  "set (stdout w) \<subseteq> set (stdout (snd (update_hostname py m h ip w)))"
  by (auto simp: update_hostname_def print_def split: option.splits sum.splits)

lemma except_Exception_stdout: "set (stdout w) \<subseteq> set (stdout (snd (except_Exception e w)))"
  by (auto simp: except_Exception_def print_def)

lemma start_vm_proceeds:
  assumes "get_project_and_zone m = Inr (project, zone)"
    and "\<not> py_in ''Error'' (start_instance py instance project zone)"
    and "\<not> py_in ''Error'' (get_public_ip py instance project zone)"
  shows "''Public IP obtained: '' @ get_public_ip py instance project zone
           \<in> set (stdout (snd (start_vm py m instance w)))"
proof -
  define w4 where "w4 = print (''Public IP obtained: '' @ get_public_ip py instance project zone)
      (print (''Retrieving public IP for VM: '' @ instance @ ''...'')
         (print (start_instance py instance project zone)
            (print (''Starting VM: '' @ instance @ ''...'') w)))"
  have sub4: "''Public IP obtained: '' @ get_public_ip py instance project zone \<in> set (stdout w4)"
    by (simp add: w4_def print_def)
  obtain r5 w5 where a: "add_host py m instance w4 = (r5, w5)"
    by (cases "add_host py m instance w4")
  have sub5: "set (stdout w4) \<subseteq> set (stdout w5)"
    using add_host_stdout [of w4 py m "instance"] a by simp
  obtain r6 w6 where u: "update_hostname py m instance (get_public_ip py instance project zone) w5 = (r6, w6)"
    by (cases "update_hostname py m instance (get_public_ip py instance project zone) w5")
  have sub6: "set (stdout w5) \<subseteq> set (stdout w6)"
    using update_hostname_stdout [of w5 py m "instance" "get_public_ip py instance project zone"] u
    by simp
  have sv: "start_vm py m instance w =
      (case add_host py m instance w4 of
         (Inl e, w5) \<Rightarrow> except_Exception e w5
       | (Inr added, w5) \<Rightarrow>
           (case update_hostname py m instance (get_public_ip py instance project zone) w5 of
              (Inl e, w6) \<Rightarrow> except_Exception e w6
            | (Inr update_success, w6) \<Rightarrow>
                if update_success
                then (Inr True,
                      print (''Successfully updated SSH config for '' @ instance
                               @ '' with new IP: '' @ get_public_ip py instance project zone) w6)
                else (Inr False, w6)))"
    using assms by (simp add: start_vm_def Let_def w4_def)
  have "set (stdout w4) \<subseteq> set (stdout (snd (start_vm py m instance w)))"
  proof (cases r5)
    case (Inl e)
    then show ?thesis
      using sv a sub5 except_Exception_stdout [of w5 e] by auto
  next
    case (Inr added)
    show ?thesis
    proof (cases r6)
      case (Inl e)
      then show ?thesis
        using sv a u Inr sub5 sub6 except_Exception_stdout [of w6 e] by auto
    next
      case (Inr ok)
      then show ?thesis
        using sv a u \<open>r5 = Inr added\<close> sub5 sub6 by (auto simp: print_def)
    qed
  qed
  then show ?thesis using sub4 by blast
qed

text \<open>
  C10, amended. With the external process as an oracle, each of \<open>start_instance\<close>,
  \<open>stop_instance\<close> and \<open>get_public_ip\<close> returns the stripped standard output when the exit
  status is zero and \<open>Error: \<close> followed by the stripped standard error otherwise, so a
  failure always carries the substring \<open>Error\<close>. \<open>start_vm\<close> decides by that substring
  alone: it gives up after the start when the start text contains it, after the query when
  the address text contains it, and goes on to the SSH config when neither does.
\<close>

theorem cloud_client_error_channel:
  assumes "subprocess_run py [''gcloud'', ''compute'', ''instances'', ''start'', instance,
                              ''--project'', project, ''--zone'', zone] = (rc1, out1, err1)"
    and "subprocess_run py [''gcloud'', ''compute'', ''instances'', ''stop'', instance,
                              ''--project'', project, ''--zone'', zone] = (rc2, out2, err2)"
    and "subprocess_run py [''gcloud'', ''compute'', ''instances'', ''describe'', instance,
                              ''--project'', project, ''--zone'', zone,
                              ''--format=get(networkInterfaces[0].accessConfigs[0].natIP)'']
           = (rc3, out3, err3)"
    and "get_project_and_zone m = Inr (project, zone)"
  shows "start_instance py instance project zone =
           (if rc1 = 0 then py_strip out1 else ''Error: '' @ py_strip err1)
       \<and> stop_instance py instance project zone =
           (if rc2 = 0 then py_strip out2 else ''Error: '' @ py_strip err2)
       \<and> get_public_ip py instance project zone =
           (if rc3 = 0 then py_strip out3 else ''Error: '' @ py_strip err3)
       \<and> (rc1 \<noteq> 0 \<longrightarrow> py_in ''Error'' (start_instance py instance project zone))
       \<and> (rc3 \<noteq> 0 \<longrightarrow> py_in ''Error'' (get_public_ip py instance project zone))
       \<and> (py_in ''Error'' (start_instance py instance project zone) \<longrightarrow>
            start_vm py m instance w =
              (Inr False,
               print ''Failed to start the VM.''
                 (print (start_instance py instance project zone)
                    (print (''Starting VM: '' @ instance @ ''...'') w))))
       \<and> (\<not> py_in ''Error'' (start_instance py instance project zone)
            \<and> py_in ''Error'' (get_public_ip py instance project zone) \<longrightarrow>
            start_vm py m instance w =
              (Inr False,
               print ''Failed to retrieve the public IP.''
                 (print (''Retrieving public IP for VM: '' @ instance @ ''...'')
                    (print (start_instance py instance project zone)
                       (print (''Starting VM: '' @ instance @ ''...'') w)))))
       \<and> (\<not> py_in ''Error'' (start_instance py instance project zone)
            \<and> \<not> py_in ''Error'' (get_public_ip py instance project zone) \<longrightarrow>
            ''Public IP obtained: '' @ get_public_ip py instance project zone
              \<in> set (stdout (snd (start_vm py m instance w))))"
  using assms start_vm_proceeds [OF assms(4), of py "instance" w]
  by (simp add: start_instance_def stop_instance_def get_public_ip_def run_command_def
      start_vm_def Let_def)


theorem cloud_client_error_channel_witness:
  "start_instance failing_runtime ''d'' ''p'' ''z'' = ''Error: boom''
   \<and> py_in ''Error'' (start_instance failing_runtime ''d'' ''p'' ''z'')
   \<and> start_vm failing_runtime example_manager ''d'' example_world =
       (Inr False,
        print ''Failed to start the VM.''
          (print ''Error: boom'' (print ''Starting VM: d...'' example_world)))
   \<and> get_public_ip example_runtime ''d'' ''p'' ''z'' = ''5.5.5.5''
   \<and> ''Public IP obtained: 5.5.5.5''
         \<in> set (stdout (snd (start_vm example_runtime example_manager ''d'' example_world)))"
proof -
  have pz: "get_project_and_zone example_manager = Inr (''p'', ''z'')"
    by (simp add: get_project_and_zone_def example_manager_def)
  have f: "subprocess_run failing_runtime c = (1, [], '' boom'' @ [LF])" for c
    by (simp add: failing_runtime_def)
  have g: "subprocess_run example_runtime c = (0, ''5.5.5.5'' @ [LF], [])" for c
    by (simp add: example_runtime_def)
  note bad = cloud_client_error_channel [OF f f f pz, of "''d''" example_world]
  note good = cloud_client_error_channel [OF g g g pz, of "''d''" example_world]
  have b1: "start_instance failing_runtime ''d'' ''p'' ''z'' = ''Error: boom''"
    using bad by (simp add: py_strip_def py_isspace_def)
  have b2: "py_in ''Error'' (start_instance failing_runtime ''d'' ''p'' ''z'')"
    by (simp add: b1)
  have b3: "start_vm failing_runtime example_manager ''d'' example_world =
       (Inr False,
        print ''Failed to start the VM.''
          (print ''Error: boom'' (print ''Starting VM: d...'' example_world)))"
    using bad b2 by (simp add: b1 py_strip_def py_isspace_def)
  have g1: "start_instance example_runtime ''d'' ''p'' ''z'' = ''5.5.5.5''"
    using good by (simp add: py_strip_def py_isspace_def)
  have g2: "get_public_ip example_runtime ''d'' ''p'' ''z'' = ''5.5.5.5''"
    using good by (simp add: py_strip_def py_isspace_def)
  have g3: "''Public IP obtained: 5.5.5.5''
         \<in> set (stdout (snd (start_vm example_runtime example_manager ''d'' example_world)))"
    using good by (simp add: g1 g2 py_strip_def py_isspace_def)
  show ?thesis
    using b1 b2 b3 g2 g3 by blast
qed

section \<open>\<open>list_hostnames\<close>\<close>

text \<open>Where a pattern ends with its group, the group holds at least one character.\<close>


lemma run_Star_close:
  "run ic [Star a, GroupClose] pos s marks = Some (e, mk)
     \<Longrightarrow> mk = marks @ [e] \<and> pos \<le> e \<and> e \<le> pos + length s"
proof (induction s arbitrary: pos)
  case Nil
  then show ?case by auto
next
  case (Cons c cs)
  show ?case
  proof (cases "accepts ic a c")
    case True
    have "run ic (Star a # [GroupClose]) (Suc pos) cs marks \<noteq> None"
      by (induction cs arbitrary: pos) (auto split: option.splits)
    then obtain r where r: "run ic [Star a, GroupClose] (Suc pos) cs marks = Some r" by auto
    with Cons.prems True have "r = (e, mk)" by simp
    with r Cons.IH [of "Suc pos"] show ?thesis by simp
  next
    case False
    with Cons.prems show ?thesis by auto
  qed
qed


lemma run_group_at_end:
  assumes "run ic (p @ [GroupOpen, Plus a, GroupClose]) pos s marks = Some (e, mk)"
    and "GroupOpen \<notin> set p" and "GroupClose \<notin> set p"
  shows "\<exists>b. mk = marks @ [b, e] \<and> pos \<le> b \<and> b < e \<and> e \<le> pos + length s"
  using assms
proof (induction p arbitrary: pos s)
  case Nil
  then show ?case
    by (cases s) (auto split: if_splits dest!: run_Star_close)
next
  case (Cons x p)
  let ?tail = "[GroupOpen, Plus a, GroupClose]"
  have ih: "\<exists>b. mk = marks @ [b, e] \<and> pos' \<le> b \<and> b < e \<and> e \<le> pos' + length s'"
    if "run ic (p @ ?tail) pos' s' marks = Some (e, mk)" for pos' s'
    using Cons.IH [OF that] Cons.prems by simp
  have star: "\<exists>b. mk = marks @ [b, e] \<and> pos' \<le> b \<and> b < e \<and> e \<le> pos' + length s'"
    if "run ic (Star c # p @ ?tail) pos' s' marks = Some (e, mk)" for c pos' s'
    using that
  proof (induction s' arbitrary: pos')
    case Nil
    then show ?case using ih [of pos' "[]"] by simp
  next
    case (Cons d ds)
    show ?case
    proof (cases "accepts ic c d")
      case True
      show ?thesis
      proof (cases "run ic (Star c # p @ ?tail) (Suc pos') ds marks")
        case None
        with Cons.prems True have "run ic (p @ ?tail) pos' (d # ds) marks = Some (e, mk)"
          by simp
        from ih [OF this] show ?thesis .
      next
        case (Some r)
        with Cons.prems True have "run ic (Star c # p @ ?tail) (Suc pos') ds marks = Some (e, mk)"
          by simp
        from Cons.IH [OF this] show ?thesis by auto
      qed
    next
      case False
      with Cons.prems have "run ic (p @ ?tail) pos' (d # ds) marks = Some (e, mk)"
        by simp
      from ih [OF this] show ?thesis .
    qed
  qed
  show ?case
  proof (cases x)
    case (Once c)
    with Cons.prems obtain d ds where s: "s = d # ds"
      and r: "run ic (p @ ?tail) (Suc pos) ds marks = Some (e, mk)"
      by (cases s) (auto split: if_splits)
    from ih [OF r] s show ?thesis by auto
  next
    case (Star c)
    with Cons.prems star [of c pos s] show ?thesis by simp
  next
    case (Plus c)
    with Cons.prems obtain d ds where s: "s = d # ds"
      and r: "run ic (Star c # p @ ?tail) (Suc pos) ds marks = Some (e, mk)"
      by (cases s) (auto split: if_splits)
    from star [OF r] s show ?thesis by auto
  next
    case Caret
    with Cons.prems have "run ic (p @ ?tail) pos s marks = Some (e, mk)"
      by (auto split: if_splits)
    from ih [OF this] show ?thesis .
  next
    case Dollar
    with Cons.prems have "run ic (p @ ?tail) pos s marks = Some (e, mk)"
      by (auto split: if_splits)
    from ih [OF this] show ?thesis .
  next
    case GroupOpen
    with Cons.prems show ?thesis by simp
  next
    case GroupClose
    with Cons.prems show ?thesis by simp
  qed
qed


lemma host_value_nonempty: "host_value line = Some name \<Longrightarrow> name \<noteq> []"
proof -
  assume a: "host_value line = Some name"
  then obtain e mk where r: "re_match True host_value_re line = Some (e, mk)"
    and n: "name = group1 line (e, mk)"
    by (auto simp: host_value_def)
  have "run True (([Caret, Star Whitespace] @ literal ''Host'' @ [Plus Whitespace])
                    @ [GroupOpen, Plus AnyChar, GroupClose]) 0 line [] = Some (e, mk)"
    using r by (simp add: re_match_def host_value_re_def)
  then obtain b where "mk = [] @ [b, e]" and "b < e" and "e \<le> 0 + length line"
    using run_group_at_end [of True "[Caret, Star Whitespace] @ literal ''Host'' @ [Plus Whitespace]"
        AnyChar 0 line "[]" e mk]
    by (auto simp: literal_def)
  then show ?thesis using n by simp
qed

lemma hostname_value_not_host: "hostname_value line \<noteq> None \<Longrightarrow> host_value line = None"
proof -
  assume "hostname_value line \<noteq> None"
  then have "run True (hostname_decl_re @ [GroupOpen, Plus AnyChar, GroupClose]) 0 line [] \<noteq> None"
    by (simp add: hostname_value_def re_match_def hostname_value_re_def hostname_decl_re_def)
  then have hn: "matches True hostname_decl_re line"
    unfolding matches_def re_match_def by (rule run_prefix)
  show ?thesis
  proof (rule ccontr)
    assume "host_value line \<noteq> None"
    then have "run True (host_decl_re @ [GroupOpen, Plus AnyChar, GroupClose]) 0 line [] \<noteq> None"
      by (simp add: host_value_def re_match_def host_value_re_def host_decl_re_def)
    then have "matches True host_decl_re line"
      unfolding matches_def re_match_def by (rule run_prefix)
    with hn show False using host_decl_not_hostname by blast
  qed
qed

lemma list_loop_append: "list_loop (xs @ ys) st = list_loop ys (list_loop xs st)"
  by (induction xs arbitrary: st) simp_all

lemma current_host_at_0: "current_host_at lines 0 = host_value (lines ! 0)"
  by (cases "host_value (lines ! 0)") (simp_all add: current_host_at_def)

lemma current_host_at_Suc:
  "current_host_at lines (Suc n) =
     (case host_value (lines ! Suc n) of
        Some v \<Rightarrow> Some v
      | None \<Rightarrow> current_host_at lines n)"
  by (cases "host_value (lines ! Suc n)") (simp_all add: current_host_at_def)

lemma current_host_at_nonempty: "current_host_at lines i \<noteq> Some []"
proof (induction i)
  case 0
  show ?case
    using host_value_nonempty [of "lines ! 0" "[]"] by (auto simp: current_host_at_0)
next
  case (Suc n)
  then show ?case
    using host_value_nonempty [of "lines ! Suc n" "[]"]
    by (auto simp: current_host_at_Suc split: option.splits)
qed

lemma list_step_spec:
  assumes "cur \<noteq> Some []"
  shows "list_step line (cur, hs) =
     (case host_value line of Some v \<Rightarrow> Some v | None \<Rightarrow> cur,
      hs @ (case hostname_value line of
              None \<Rightarrow> []
            | Some ip \<Rightarrow>
                (case (case host_value line of Some v \<Rightarrow> Some v | None \<Rightarrow> cur) of
                   None \<Rightarrow> []
                 | Some h \<Rightarrow> [h @ '' -> '' @ ip])))"
proof (cases "host_value line")
  case None
  with assms show ?thesis
    by (auto simp: list_step_def host_value_def hostname_value_def split: option.splits)
next
  case (Some v)
  then have "v \<noteq> []" by (rule host_value_nonempty)
  with Some show ?thesis
    by (auto simp: list_step_def host_value_def hostname_value_def split: option.splits)
qed

lemma list_loop_prefix:
  assumes "n \<le> length lines"
  shows "list_loop (take n lines) (None, []) =
           (if n = 0 then None else current_host_at lines (n - 1),
            concat (map (\<lambda>i. case hostname_value (lines ! i) of
                                None \<Rightarrow> []
                              | Some ip \<Rightarrow>
                                  (case current_host_at lines i of
                                     None \<Rightarrow> []
                                   | Some h \<Rightarrow> [h @ '' -> '' @ ip]))
                      [0..<n]))"
  using assms
proof (induction n)
  case 0
  show ?case by simp
next
  case (Suc n)
  let ?cur = "if n = 0 then None else current_host_at lines (n - 1)"
  have t: "take (Suc n) lines = take n lines @ [lines ! n]"
    using Suc.prems by (simp add: take_Suc_conv_app_nth)
  have c: "?cur \<noteq> Some []"
    using current_host_at_nonempty [of lines "n - 1"] by simp
  have nxt: "(case host_value (lines ! n) of Some v \<Rightarrow> Some v | None \<Rightarrow> ?cur)
               = current_host_at lines n"
  proof (cases n)
    case 0
    then show ?thesis
      by (simp add: current_host_at_0 split: option.splits)
  next
    case (Suc k)
    then have "n - 1 = k" by simp
    with Suc show ?thesis
      by (simp add: current_host_at_Suc split: option.splits)
  qed
  have st: "list_step (lines ! n) (?cur, hs) =
              (current_host_at lines n,
               hs @ (case hostname_value (lines ! n) of
                       None \<Rightarrow> []
                     | Some ip \<Rightarrow>
                         (case current_host_at lines n of
                            None \<Rightarrow> []
                          | Some h \<Rightarrow> [h @ '' -> '' @ ip])))" for hs
    unfolding list_step_spec [OF c] nxt ..
  from Suc.prems have "n \<le> length lines" by simp
  from Suc.IH [OF this]
  have ih: "list_loop (take n lines) (None, []) =
              (?cur,
               concat (map (\<lambda>i. case hostname_value (lines ! i) of
                                None \<Rightarrow> []
                              | Some ip \<Rightarrow>
                                  (case current_host_at lines i of
                                     None \<Rightarrow> []
                                   | Some h \<Rightarrow> [h @ '' -> '' @ ip]))
                      [0..<n]))" .
  show ?case
    unfolding t list_loop_append ih by (simp add: st)
qed

text \<open>
  C7. On the configuration with the blocks \<open>Host a\<close>/\<open>HostName 10.0.0.1\<close> and
  \<open>Host b\<close>/\<open>HostName 10.0.0.2\<close>, \<open>list_hostnames\<close> returns the two pairs in file order.
  On every file, the result is, line by line and in file order, one pair for each
  \<open>HostName\<close> line that has a current host, made of the name that the last \<open>Host\<close> line at or
  before it declares and of its own value, and nothing for any other line: repeated
  \<open>HostName\<close> lines under one host each give their pair, whatever lines lie between them.
\<close>

theorem list_hostnames_pairs:
  "fst (list_hostnames example_manager example_world) = [''a -> 10.0.0.1'', ''b -> 10.0.0.2'']
   \<and> (ssh_config_file w = Some content \<longrightarrow>
        fst (list_hostnames m w) =
          concat (map (\<lambda>i. case hostname_value (readlines content ! i) of
                              None \<Rightarrow> []
                            | Some ip \<Rightarrow>
                                (case current_host_at (readlines content) i of
                                   None \<Rightarrow> []
                                 | Some h \<Rightarrow> [h @ '' -> '' @ ip]))
                    [0..<length (readlines content)]))"
proof (intro conjI impI)
  show "fst (list_hostnames example_manager example_world) = [''a -> 10.0.0.1'', ''b -> 10.0.0.2'']"
    by code_simp
next
  assume f: "ssh_config_file w = Some content"
  from list_loop_prefix [of "length (readlines content)" "readlines content"]
  show "fst (list_hostnames m w) =
          concat (map (\<lambda>i. case hostname_value (readlines content ! i) of
                              None \<Rightarrow> []
                            | Some ip \<Rightarrow>
                                (case current_host_at (readlines content) i of
                                   None \<Rightarrow> []
                                 | Some h \<Rightarrow> [h @ '' -> '' @ ip]))
                    [0..<length (readlines content)])"
    using f by (simp add: list_hostnames_def)
qed

theorem list_hostnames_pairs_witness:
  "fst (list_hostnames example_manager \<lparr>ssh_config_file = Some interleaved_config, stdout = []\<rparr>)
     = [''a -> 10.0.0.1'', ''a -> 10.0.0.3'']"
proof -
  have f: "ssh_config_file \<lparr>ssh_config_file = Some interleaved_config, stdout = []\<rparr>
             = Some interleaved_config"
    by simp
  have e: "concat (map (\<lambda>i. case hostname_value (readlines interleaved_config ! i) of
                              None \<Rightarrow> []
                            | Some ip \<Rightarrow>
                                (case current_host_at (readlines interleaved_config) i of
                                   None \<Rightarrow> []
                                 | Some h \<Rightarrow> [h @ '' -> '' @ ip]))
                    [0..<length (readlines interleaved_config)])
           = [''a -> 10.0.0.1'', ''a -> 10.0.0.3'']"
    by code_simp
  from list_hostnames_pairs
         [of "\<lparr>ssh_config_file = Some interleaved_config, stdout = []\<rparr>" interleaved_config
             example_manager]
  show ?thesis
    using f e by simp
qed

section \<open>Facts about reading lines\<close>

lemma universal_newlines_id: "CR \<notin> set s \<Longrightarrow> universal_newlines s = s"
  by (induction s rule: universal_newlines.induct) auto

lemma universal_newlines_Cons: "c \<noteq> CR \<Longrightarrow> universal_newlines (c # s) = c # universal_newlines s"
  by (cases s) auto

lemma universal_newlines_LF:
  "universal_newlines (a @ LF # b) = universal_newlines (a @ [LF]) @ universal_newlines b"
proof (induction a rule: universal_newlines.induct)
  case 1
  show ?case by (simp add: universal_newlines_Cons)
next
  case (2 c)
  show ?case by (simp add: universal_newlines_Cons)
next
  case (3 c d cs)
  then show ?case by simp
qed

lemma concat_split_lines: "concat (split_lines s) = s"
  by (induction s) (auto split: list.splits)

lemma split_lines_line:
  "LF \<notin> set body \<Longrightarrow> split_lines (body @ LF # rest) = (body @ [LF]) # split_lines rest"
  by (induction body) auto

lemma complete_lineE:
  assumes "complete_line l"
  obtains body where "l = body @ [LF]" and "LF \<notin> set body" and "CR \<notin> set body"
proof -
  from assms have "l = butlast l @ [LF]" and "LF \<notin> set (butlast l)" and "CR \<notin> set (butlast l)"
    by (auto simp: complete_line_def dest: in_set_butlastD) (metis append_butlast_last_id)
  then show ?thesis using that by blast
qed

lemma split_lines_concat: "\<forall>l\<in>set ls. complete_line l \<Longrightarrow> split_lines (concat ls) = ls"
proof (induction ls)
  case Nil
  show ?case by simp
next
  case (Cons l ls)
  then obtain body where "l = body @ [LF]" and "LF \<notin> set body"
    by (auto elim: complete_lineE)
  then show ?case using Cons split_lines_line [of body "concat ls"] by simp
qed

lemma readlines_concat: "\<forall>l\<in>set ls. complete_line l \<Longrightarrow> readlines (concat ls) = ls"
proof -
  assume a: "\<forall>l\<in>set ls. complete_line l"
  then have "CR \<notin> set (concat ls)" by (auto simp: complete_line_def)
  then show ?thesis using a by (simp add: readlines_def universal_newlines_id split_lines_concat)
qed

section \<open>Facts about the loop of \<open>update_hostname\<close>\<close>

lemma update_loop_append:
  "update_loop py host new_ip (xs @ ys) st =
     (case update_loop py host new_ip xs st of
        Inl e \<Rightarrow> Inl e
      | Inr st' \<Rightarrow> update_loop py host new_ip ys st')"
  by (induction xs arbitrary: st) (auto split: sum.splits)

lemma update_step_other:
  assumes "\<not> matches True host_decl_re l" and "\<not> matches True hostname_decl_re l"
  shows "update_step py host new_ip l (hf, it, ml) = Inr (hf, it, ml @ [l])"
  using assms by (simp add: update_step_def)

lemma update_loop_other:
  assumes "\<forall>l\<in>set ls. \<not> matches True host_decl_re l \<and> \<not> matches True hostname_decl_re l"
  shows "update_loop py host new_ip ls (hf, it, ml) = Inr (hf, it, ml @ ls)"
  using assms by (induction ls arbitrary: ml) (simp_all add: update_step_other)

lemmas pattern_defs =
  matches_def re_match_def host_decl_re_def host_name_re_def hostname_decl_re_def
  hostname_sub_re_def re_escape_def literal_def py_isspace_def py_lower_def

section \<open>\<open>update_hostname\<close> on the two-block configuration\<close>

lemma step_Host_a:
  "update_step py ''a'' ''2.2.2.2'' (''Host a'' @ [LF]) (hf, it, ml)
     = Inr (True, True, ml @ [''Host a'' @ [LF]])"
  by (simp add: update_step_def pattern_defs)

lemma step_HostName_a:
  "update_step py ''a'' ''2.2.2.2'' (''    HostName 10.0.0.1'' @ [LF]) (hf, True, ml)
     = Inr (hf, True, ml @ [''    HostName 2.2.2.2'' @ [LF]])"
  by (simp add: update_step_def hostname_sub_def compile_template_def pattern_defs)

lemma step_Host_b:
  "update_step py ''a'' ''2.2.2.2'' (''Host b'' @ [LF]) (hf, it, ml)
     = Inr (hf, False, ml @ [''Host b'' @ [LF]])"
  by (simp add: update_step_def pattern_defs)

lemma step_HostName_b:
  "update_step py ''a'' ''2.2.2.2'' (''    HostName 10.0.0.2'' @ [LF]) (hf, False, ml)
     = Inr (hf, False, ml @ [''    HostName 10.0.0.2'' @ [LF]])"
  by (simp add: update_step_def pattern_defs)


text \<open>
  C1. The file holds the block \<open>Host a\<close>/\<open>HostName 10.0.0.1\<close> and the block
  \<open>Host b\<close>/\<open>HostName 10.0.0.2\<close>, with any lines that are neither \<open>Host\<close> nor \<open>HostName\<close>
  lines before, between and after them. \<open>update_hostname("a", "2.2.2.2")\<close> returns \<open>True\<close>
  and writes the same lines, in the same order, with one change: the \<open>HostName\<close> line of
  block \<open>a\<close> now carries \<open>2.2.2.2\<close>.
\<close>

theorem update_hostname_two_blocks:
  assumes "\<forall>l\<in>set (zs @ xs @ ys).
             complete_line l \<and> \<not> matches True host_decl_re l \<and> \<not> matches True hostname_decl_re l"
    and "ssh_config_file w =
           Some (concat (zs @ [''Host a'' @ [LF], ''    HostName 10.0.0.1'' @ [LF]] @ xs
                         @ [''Host b'' @ [LF], ''    HostName 10.0.0.2'' @ [LF]] @ ys))"
  shows "update_hostname py m ''a'' ''2.2.2.2'' w =
           (Inr True,
            print (''Successfully updated HostName for '' @ quoted ''a'' @ '' to ''
                     @ quoted ''2.2.2.2'' @ '' in '' @ ssh_config_path m)
              (w\<lparr>ssh_config_file :=
                   Some (concat (zs @ [''Host a'' @ [LF], ''    HostName 2.2.2.2'' @ [LF]] @ xs
                                 @ [''Host b'' @ [LF], ''    HostName 10.0.0.2'' @ [LF]] @ ys))\<rparr>))"
proof -
  let ?lines = "zs @ [''Host a'' @ [LF], ''    HostName 10.0.0.1'' @ [LF]] @ xs
                @ [''Host b'' @ [LF], ''    HostName 10.0.0.2'' @ [LF]] @ ys"
  have other: "\<forall>l\<in>set us. \<not> matches True host_decl_re l \<and> \<not> matches True hostname_decl_re l"
    if "us = zs \<or> us = xs \<or> us = ys" for us
    using assms(1) that by auto
  have "\<forall>l\<in>set ?lines. complete_line l"
    using assms(1) by (auto simp: complete_line_def)
  then have r: "readlines (concat ?lines) = ?lines"
    by (rule readlines_concat)
  have "update_loop py ''a'' ''2.2.2.2'' ?lines (False, False, []) =
          Inr (True, False,
               zs @ [''Host a'' @ [LF], ''    HostName 2.2.2.2'' @ [LF]] @ xs
               @ [''Host b'' @ [LF], ''    HostName 10.0.0.2'' @ [LF]] @ ys)"
    by (simp add: update_loop_append update_loop_other [OF other]
        step_Host_a [simplified] step_HostName_a [simplified]
        step_Host_b [simplified] step_HostName_b [simplified])
  then show ?thesis
    using assms(2) r by (simp add: update_hostname_def)
qed

theorem update_hostname_two_blocks_witness:
  "update_hostname example_runtime example_manager ''a'' ''2.2.2.2''
     \<lparr>ssh_config_file =
        Some (''# cloud machines'' @ [LF] @ ''Host a'' @ [LF] @ ''    HostName 10.0.0.1'' @ [LF]
              @ ''    User bob'' @ [LF] @ ''Host b'' @ [LF] @ ''    HostName 10.0.0.2'' @ [LF]),
      stdout = []\<rparr> =
   (Inr True,
    \<lparr>ssh_config_file =
        Some (''# cloud machines'' @ [LF] @ ''Host a'' @ [LF] @ ''    HostName 2.2.2.2'' @ [LF]
              @ ''    User bob'' @ [LF] @ ''Host b'' @ [LF] @ ''    HostName 10.0.0.2'' @ [LF]),
     stdout = [''Successfully updated HostName for '' @ quoted ''a'' @ '' to ''
               @ quoted ''2.2.2.2'' @ '' in /home/u/.ssh/config'']\<rparr>)"
proof -
  have h1: "\<forall>l\<in>set ([''# cloud machines'' @ [LF]] @ [''    User bob'' @ [LF]] @ []).
             complete_line l \<and> \<not> matches True host_decl_re l \<and> \<not> matches True hostname_decl_re l"
    by code_simp
  show ?thesis
    using update_hostname_two_blocks
            [OF h1, of "\<lparr>ssh_config_file =
        Some (''# cloud machines'' @ [LF] @ ''Host a'' @ [LF] @ ''    HostName 10.0.0.1'' @ [LF]
              @ ''    User bob'' @ [LF] @ ''Host b'' @ [LF] @ ''    HostName 10.0.0.2'' @ [LF]),
      stdout = []\<rparr>" example_runtime example_manager]
    by (simp add: print_def ssh_config_path_def example_manager_def)
qed

section \<open>\<open>update_hostname\<close>: a block without a \<open>HostName\<close> line\<close>

lemma host_name_is_decl:
  "matches True (host_name_re host) line \<Longrightarrow> matches True host_decl_re line"
proof -
  assume "matches True (host_name_re host) line"
  then have "run True (host_decl_re @ (re_escape host @ [Star Whitespace, Dollar])) 0 line [] \<noteq> None"
    by (simp add: matches_def re_match_def host_name_re_def host_decl_re_def)
  then show ?thesis
    unfolding matches_def re_match_def by (rule run_prefix)
qed

lemma update_loop_no_hostname:
  assumes "it \<Longrightarrow> \<forall>body post. lines = body @ post \<longrightarrow>
             (\<forall>l\<in>set body. \<not> matches True host_decl_re l) \<longrightarrow>
             (\<forall>l\<in>set body. \<not> matches True hostname_decl_re l)"
    and "\<forall>pre h body post. lines = pre @ h # body @ post \<longrightarrow>
           matches True (host_name_re host) h \<longrightarrow>
           (\<forall>l\<in>set body. \<not> matches True host_decl_re l) \<longrightarrow>
           (\<forall>l\<in>set body. \<not> matches True hostname_decl_re l)"
  shows "\<exists>it'. update_loop py host new_ip lines (hf, it, ml) =
           Inr (hf \<or> (\<exists>l\<in>set lines. matches True (host_name_re host) l), it', ml @ lines)"
  using assms
proof (induction lines arbitrary: hf it ml)
  case Nil
  show ?case by simp
next
  case (Cons l ls)
  have B: "\<forall>pre h body post. ls = pre @ h # body @ post \<longrightarrow>
           matches True (host_name_re host) h \<longrightarrow>
           (\<forall>l\<in>set body. \<not> matches True host_decl_re l) \<longrightarrow>
           (\<forall>l\<in>set body. \<not> matches True hostname_decl_re l)"
  proof (intro allI impI)
    fix pre h body post
    assume "ls = pre @ h # body @ post" and t: "matches True (host_name_re host) h"
      and n: "\<forall>l\<in>set body. \<not> matches True host_decl_re l"
    then have "l # ls = (l # pre) @ h # body @ post" by simp
    with Cons.prems(2) t n show "\<forall>l\<in>set body. \<not> matches True hostname_decl_re l" by blast
  qed
  show ?case
  proof (cases "matches True host_decl_re l")
    case True
    then have nh: "\<not> matches True hostname_decl_re l" by (rule host_decl_not_hostname)
    let ?t = "matches True (host_name_re host) l"
    have step: "update_step py host new_ip l (hf, it, ml) = Inr (hf \<or> ?t, ?t, ml @ [l])"
      using True nh by (simp add: update_step_def Let_def)
    have A: "\<forall>body post. ls = body @ post \<longrightarrow>
             (\<forall>l\<in>set body. \<not> matches True host_decl_re l) \<longrightarrow>
             (\<forall>l\<in>set body. \<not> matches True hostname_decl_re l)" if ?t
    proof (intro allI impI)
      fix body post
      assume "ls = body @ post" and n: "\<forall>l\<in>set body. \<not> matches True host_decl_re l"
      then have "l # ls = [] @ l # body @ post" by simp
      with Cons.prems(2) that n show "\<forall>l\<in>set body. \<not> matches True hostname_decl_re l" by blast
    qed
    from Cons.IH [OF A B, of ?t "hf \<or> ?t" "ml @ [l]"]
    show ?thesis using step by auto
  next
    case False
    then have nt: "\<not> matches True (host_name_re host) l"
      using host_name_is_decl by blast
    have nh: "\<not> matches True hostname_decl_re l" if it
    proof -
      have "l # ls = [l] @ ls" and "\<forall>x\<in>set [l]. \<not> matches True host_decl_re x"
        using False by simp_all
      with Cons.prems(1) [OF that] have "\<forall>x\<in>set [l]. \<not> matches True hostname_decl_re x"
        by blast
      then show ?thesis by simp
    qed
    have step: "update_step py host new_ip l (hf, it, ml) = Inr (hf, it, ml @ [l])"
      using False nh by (auto simp: update_step_def Let_def)
    have A: "\<forall>body post. ls = body @ post \<longrightarrow>
             (\<forall>l\<in>set body. \<not> matches True host_decl_re l) \<longrightarrow>
             (\<forall>l\<in>set body. \<not> matches True hostname_decl_re l)" if it
    proof (intro allI impI)
      fix body post
      assume "ls = body @ post" and n: "\<forall>l\<in>set body. \<not> matches True host_decl_re l"
      then have "l # ls = (l # body) @ post" and "\<forall>x\<in>set (l # body). \<not> matches True host_decl_re x"
        using False by simp_all
      with Cons.prems(1) [OF that] have "\<forall>x\<in>set (l # body). \<not> matches True hostname_decl_re x"
        by blast
      then show "\<forall>l\<in>set body. \<not> matches True hostname_decl_re l" by simp
    qed
    from Cons.IH [OF A B, of it hf "ml @ [l]"]
    show ?thesis using step nt by auto
  qed
qed

text \<open>
  C4 as stated fails: when the host has two blocks, one without and one with a \<open>HostName\<close>
  line, the second is rewritten.
\<close>

theorem update_hostname_repeated_host_counterexample:
  "readlines repeated_host_config =
     [''Host a'' @ [LF], ''    User bob'' @ [LF], ''Host a'' @ [LF], ''    HostName 10.0.0.1'' @ [LF]]
   \<and> matches True (host_name_re ''a'') (''Host a'' @ [LF])
   \<and> \<not> matches True hostname_decl_re (''    User bob'' @ [LF])
   \<and> ssh_config_file
        (snd (update_hostname example_runtime example_manager ''a'' ''2.2.2.2''
                \<lparr>ssh_config_file = Some repeated_host_config, stdout = []\<rparr>))
       = Some (''Host a'' @ [LF] @ ''    User bob'' @ [LF]
               @ ''Host a'' @ [LF] @ ''    HostName 2.2.2.2'' @ [LF])
   \<and> ssh_config_file
        (snd (update_hostname example_runtime example_manager ''a'' ''2.2.2.2''
                \<lparr>ssh_config_file = Some repeated_host_config, stdout = []\<rparr>))
       \<noteq> Some repeated_host_config"
  by code_simp

text \<open>
  C4, amended. When some \<open>Host\<close> line of the file matches the host and no block that such a
  line opens contains a \<open>HostName\<close> line, \<open>update_hostname\<close> returns \<open>True\<close> and writes the
  lines back as it read them: the content of the file after newline translation, which is
  the content itself when the file has no carriage return.
\<close>

theorem update_hostname_no_hostname_line:
  assumes "ssh_config_file w = Some content"
    and "\<exists>l\<in>set (readlines content). matches True (host_name_re host) l"
    and "\<forall>pre h body post. readlines content = pre @ h # body @ post \<longrightarrow>
           matches True (host_name_re host) h \<longrightarrow>
           (\<forall>l\<in>set body. \<not> matches True host_decl_re l) \<longrightarrow>
           (\<forall>l\<in>set body. \<not> matches True hostname_decl_re l)"
  shows "update_hostname py m host new_ip w =
           (Inr True,
            print (''Successfully updated HostName for '' @ quoted host @ '' to ''
                     @ quoted new_ip @ '' in '' @ ssh_config_path m)
              (w\<lparr>ssh_config_file := Some (universal_newlines content)\<rparr>))
         \<and> (CR \<notin> set content \<longrightarrow> universal_newlines content = content)"
proof -
  from update_loop_no_hostname [of False "readlines content" host py new_ip False "[]", OF _ assms(3)]
  obtain it' where "update_loop py host new_ip (readlines content) (False, False, []) =
      Inr (\<exists>l\<in>set (readlines content). matches True (host_name_re host) l, it', readlines content)"
    by auto
  then show ?thesis
    using assms(1,2) by (simp add: update_hostname_def readlines_def concat_split_lines
        universal_newlines_id)
qed


theorem update_hostname_no_hostname_line_witness:
  "update_hostname example_runtime example_manager ''a'' ''2.2.2.2''
     \<lparr>ssh_config_file = Some no_hostname_config, stdout = []\<rparr> =
   (Inr True,
    \<lparr>ssh_config_file = Some no_hostname_config,
     stdout = [''Successfully updated HostName for '' @ quoted ''a'' @ '' to ''
               @ quoted ''2.2.2.2'' @ '' in /home/u/.ssh/config'']\<rparr>)"
proof -
  let ?l0 = "''Host a'' @ [LF]" and ?l1 = "''    User bob'' @ [LF]"
  let ?l2 = "''Host b'' @ [LF]" and ?l3 = "''    HostName 10.0.0.2'' @ [LF]"
  have r: "readlines no_hostname_config = [?l0, ?l1, ?l2, ?l3]"
    by code_simp
  have t0: "matches True (host_name_re ''a'') ?l0"
    and t1: "\<not> matches True (host_name_re ''a'') ?l1"
    and t2: "\<not> matches True (host_name_re ''a'') ?l2"
    and t3: "\<not> matches True (host_name_re ''a'') ?l3"
    and d2: "matches True host_decl_re ?l2"
    and n1: "\<not> matches True hostname_decl_re ?l1"
    by code_simp+
  have f: "ssh_config_file \<lparr>ssh_config_file = Some no_hostname_config, stdout = []\<rparr>
             = Some no_hostname_config"
    by simp
  have found: "\<exists>l\<in>set (readlines no_hostname_config). matches True (host_name_re ''a'') l"
    using r t0 by simp
  have blocks: "\<forall>pre h body post. readlines no_hostname_config = pre @ h # body @ post \<longrightarrow>
           matches True (host_name_re ''a'') h \<longrightarrow>
           (\<forall>l\<in>set body. \<not> matches True host_decl_re l) \<longrightarrow>
           (\<forall>l\<in>set body. \<not> matches True hostname_decl_re l)"
  proof (intro allI impI)
    fix pre h body post
    assume eq: "readlines no_hostname_config = pre @ h # body @ post"
      and t: "matches True (host_name_re ''a'') h"
      and n: "\<forall>l\<in>set body. \<not> matches True host_decl_re l"
    from eq r have e: "[?l0, ?l1, ?l2, ?l3] = pre @ h # body @ post" by simp
    have "pre = []"
    proof (rule ccontr)
      assume "pre \<noteq> []"
      with e have "h \<in> set [?l1, ?l2, ?l3]"
        by (cases pre) (auto simp: Cons_eq_append_conv)
      with t t1 t2 t3 show False by auto
    qed
    with e have "body @ post = [?l1, ?l2, ?l3]" by simp
    then have "body = [] \<or> body = [?l1] \<or> ?l2 \<in> set body"
      by (auto simp: append_eq_Cons_conv)
    with n d2 n1 show "\<forall>l\<in>set body. \<not> matches True hostname_decl_re l" by auto
  qed
  have c: "CR \<notin> set no_hostname_config"
    by code_simp
  from update_hostname_no_hostname_line
         [OF f found blocks, of example_runtime example_manager "''2.2.2.2''"] c
  show ?thesis
    by (simp add: print_def ssh_config_path_def example_manager_def)
qed

section \<open>The substitution of \<open>update_hostname\<close>\<close>

lemma run_Star_takeWhile:
  assumes "run ic is (pos + length (takeWhile (accepts ic a) s)) (dropWhile (accepts ic a) s) marks
             = Some r"
  shows "run ic (Star a # is) pos s marks = Some r"
proof -
  have "run ic (Star a # is) pos (takeWhile (accepts ic a) s @ dropWhile (accepts ic a) s) marks
          = Some r"
  proof (rule run_Star_greedy)
    show "\<forall>c\<in>set (takeWhile (accepts ic a) s). accepts ic a c"
      by (auto dest: set_takeWhileD)
    show "dropWhile (accepts ic a) s = [] \<or> \<not> accepts ic a (hd (dropWhile (accepts ic a) s))"
      using hd_dropWhile [of "accepts ic a" s] by blast
    show "run ic is (pos + length (takeWhile (accepts ic a) s)) (dropWhile (accepts ic a) s) marks
            = Some r"
      by (rule assms)
  qed
  then show ?thesis by simp
qed

lemma starts_with_append: "starts_with p s \<Longrightarrow> s = p @ drop (length p) s"
  by (induction p s rule: starts_with.induct) auto

lemma AnyChar_pred: "accepts ic AnyChar = (\<lambda>c. c \<noteq> LF)"
  by (rule ext) simp

lemma spec_hostname_lineE:
  assumes "spec_hostname_line line"
  obtains c cs where "line = takeWhile py_isspace line @ ''HostName'' @ c # cs"
    and "dropWhile py_isspace line = ''HostName'' @ c # cs"
    and "py_isspace c"
    and "LF \<notin> set (takeWhile py_isspace (c # cs))"
proof -
  let ?r = "dropWhile py_isspace line"
  from assms have sw: "starts_with ''HostName'' ?r"
    and g: "takeWhile py_isspace (drop 8 ?r) \<noteq> []"
    and n: "LF \<notin> set (takeWhile py_isspace (drop 8 ?r))"
    by (simp_all add: spec_hostname_line_def Let_def)
  from g obtain c cs where dc: "drop 8 ?r = c # cs" and c: "py_isspace c"
    by (cases "drop 8 ?r") (auto split: if_splits)
  have "?r = ''HostName'' @ drop (length ''HostName'') ?r"
    by (rule starts_with_append [OF sw])
  moreover have "length ''HostName'' = 8"
    by simp
  ultimately have "?r = ''HostName'' @ drop 8 ?r"
    by (simp only:)
  then have r: "?r = ''HostName'' @ c # cs"
    unfolding dc .
  have "line = takeWhile py_isspace line @ ?r" by simp
  with r have "line = takeWhile py_isspace line @ ''HostName'' @ c # cs" by simp
  moreover from n have "LF \<notin> set (takeWhile py_isspace (c # cs))"
    unfolding dc .
  ultimately show ?thesis using r c that by blast
qed

lemma run_Star_AnyChar_end:
  "run ic [Star AnyChar] pos s marks = Some (pos + length (takeWhile (\<lambda>c. c \<noteq> LF) s), marks)"
  by (rule run_Star_takeWhile) (simp add: AnyChar_pred)

lemma run_gap_value:
  "run ic [Star Whitespace, GroupClose, Star AnyChar] pos s marks =
     Some (pos + length (takeWhile py_isspace s)
             + length (takeWhile (\<lambda>c. c \<noteq> LF) (dropWhile py_isspace s)),
           marks @ [pos + length (takeWhile py_isspace s)])"
  by (rule run_Star_takeWhile) (simp add: accepts_Whitespace run_Star_AnyChar_end)

lemma spec_hostname_line_matches:
  assumes "spec_hostname_line line"
  shows "matches True hostname_decl_re line"
proof -
  from assms obtain c cs where r: "dropWhile py_isspace line = ''HostName'' @ c # cs"
    and c: "py_isspace c"
    by (rule spec_hostname_lineE)
  have "\<not> py_isspace (CHR ''H'')" and "\<not> py_isspace (py_lower (CHR ''H''))"
    by (simp_all add: py_isspace_def py_lower_def)
  then have "run True hostname_decl_re 0 line [] =
          run True (literal ''HostName'' @ [Plus Whitespace])
            (length (takeWhile py_isspace line)) (''HostName'' @ c # cs) []"
    using r by (simp add: hostname_decl_re_def literal_def run_skip_space)
  also have "\<dots> = run True [Plus Whitespace]
                      (length (takeWhile py_isspace line) + length ''HostName'') (c # cs) []"
    by (rule run_literal)
  also have "\<dots> \<noteq> None"
    using c by (simp add: run_Star_last)
  finally show ?thesis
    by (simp add: matches_def re_match_def)
qed

lemma spec_hostname_line_sub:
  assumes "spec_hostname_line line"
  shows "re_match False hostname_sub_re line =
           Some (length (takeWhile py_isspace line) + 8
                   + length (takeWhile py_isspace (drop 8 (dropWhile py_isspace line)))
                   + length (takeWhile (\<lambda>c. c \<noteq> LF)
                               (dropWhile py_isspace (drop 8 (dropWhile py_isspace line)))),
                 [0, length (takeWhile py_isspace line) + 8
                       + length (takeWhile py_isspace (drop 8 (dropWhile py_isspace line)))])"
proof -
  from assms obtain c cs where r: "dropWhile py_isspace line = ''HostName'' @ c # cs"
    and c: "py_isspace c"
    by (rule spec_hostname_lineE)
  let ?i = "length (takeWhile py_isspace line)"
  have d8: "drop 8 (dropWhile py_isspace line) = c # cs"
    using r by simp
  have len8: "length ''HostName'' = 8"
    by simp
  have "\<not> py_isspace (CHR ''H'')" and "\<not> py_isspace (py_lower (CHR ''H''))"
    by (simp_all add: py_isspace_def py_lower_def)
  then have "re_match False hostname_sub_re line =
          run False (literal ''HostName'' @ [Plus Whitespace, GroupClose, Star AnyChar])
            ?i (''HostName'' @ c # cs) [0]"
    using r by (simp add: re_match_def hostname_sub_re_def literal_def run_skip_space)
  also have "\<dots> = run False [Plus Whitespace, GroupClose, Star AnyChar]
                      (?i + length ''HostName'') (c # cs) [0]"
    by (rule run_literal)
  also have "\<dots> = run False [Plus Whitespace, GroupClose, Star AnyChar] (?i + 8) (c # cs) [0]"
    by (simp only: len8)
  also have "\<dots> = run False [Star Whitespace, GroupClose, Star AnyChar] (Suc (?i + 8)) cs [0]"
    using c by (simp only: run.simps accepts.simps if_True)
  finally show ?thesis
    using c by (simp add: run_gap_value d8)
qed

lemma takeWhile_without_LF:
  "LF \<notin> set (takeWhile P xs) \<Longrightarrow> takeWhile (\<lambda>c. P c \<and> c \<noteq> LF) xs = takeWhile P xs"
  by (induction xs) auto

lemma dropWhile_to_LF:
  "LF \<notin> set (takeWhile P xs) \<Longrightarrow>
     dropWhile (\<lambda>c. c \<noteq> LF) (dropWhile P xs) = dropWhile (\<lambda>c. c \<noteq> LF) xs"
  by (induction xs) auto

text \<open>
  On a \<open>HostName\<close> line in the specification's sense, and for an address without a
  backslash, the substitution of the code is the rewriting that the specification
  describes.
\<close>

lemma hostname_sub_spec:
  assumes "spec_hostname_line line" and "BACKSLASH \<notin> set new_ip"
  shows "hostname_sub py new_ip line = Inr (spec_set_hostname new_ip line)"
proof -
  from assms(1) obtain c cs where l: "line = takeWhile py_isspace line @ ''HostName'' @ c # cs"
    and r: "dropWhile py_isspace line = ''HostName'' @ c # cs"
    and c: "py_isspace c"
    and n: "LF \<notin> set (takeWhile py_isspace (c # cs))"
    by (rule spec_hostname_lineE)
  let ?ind = "takeWhile py_isspace line"
  let ?g = "takeWhile py_isspace cs" and ?v = "dropWhile py_isspace cs"
  let ?val = "takeWhile (\<lambda>c. c \<noteq> LF) ?v" and ?rest = "dropWhile (\<lambda>c. c \<noteq> LF) ?v"
  have d8: "drop 8 (dropWhile py_isspace line) = c # cs"
    using r by simp
  have whole: "line = (?ind @ ''HostName'' @ c # ?g) @ ?val @ ?rest"
    using l by simp
  have len: "length (?ind @ ''HostName'' @ c # ?g) = length ?ind + 8 + length (c # ?g)"
    by simp
  have g1: "take (length ?ind + 8 + length (c # ?g)) line = ?ind @ ''HostName'' @ c # ?g"
    using whole len by (metis append_eq_conv_conj)
  have whole': "line = ((?ind @ ''HostName'' @ c # ?g) @ ?val) @ ?rest"
    using whole by simp
  have "length ((?ind @ ''HostName'' @ c # ?g) @ ?val)
          = length ?ind + 8 + length (c # ?g) + length ?val"
    by simp
  with whole' have rest: "drop (length ?ind + 8 + length (c # ?g) + length ?val) line = ?rest"
    by (metis append_eq_conv_conj)
  have code: "hostname_sub py new_ip line = Inr ((?ind @ ''HostName'' @ c # ?g) @ new_ip @ ?rest)"
    using spec_hostname_line_sub [OF assms(1)] assms(2) c g1 rest
    by (simp add: hostname_sub_def compile_template_def d8)
  have gap: "takeWhile (\<lambda>c. py_isspace c \<and> c \<noteq> LF) (c # cs) = c # ?g"
    using takeWhile_without_LF [OF n] c by simp
  have tail: "dropWhile (\<lambda>c. c \<noteq> LF) (c # cs) = ?rest"
    using dropWhile_to_LF [OF n] c by simp
  have "spec_set_hostname new_ip line = (?ind @ ''HostName'' @ c # ?g) @ new_ip @ ?rest"
    unfolding spec_set_hostname_def Let_def d8 gap tail by simp
  with code show ?thesis
    by simp
qed

section \<open>\<open>update_hostname\<close>: every \<open>HostName\<close> line of the block\<close>

lemma hostname_sub_total:
  "BACKSLASH \<notin> set new_ip \<Longrightarrow> \<exists>t. hostname_sub py new_ip l = Inr t"
  by (simp add: hostname_sub_def compile_template_def split: option.splits)

lemma update_step_total:
  assumes "BACKSLASH \<notin> set new_ip"
  shows "\<exists>hf' it' l'. update_step py host new_ip l (hf, it, ml) = Inr (hf', it', ml @ [l'])
           \<and> (hf \<longrightarrow> hf')"
proof -
  from hostname_sub_total [OF assms] obtain t where "hostname_sub py new_ip l = Inr t"
    by blast
  then show ?thesis
    by (simp add: update_step_def Let_def)
qed

lemma update_loop_total:
  assumes "BACKSLASH \<notin> set new_ip"
  shows "\<exists>hf' it' ls'. update_loop py host new_ip ls (hf, it, ml) = Inr (hf', it', ml @ ls')
           \<and> length ls' = length ls \<and> (hf \<longrightarrow> hf')"
proof (induction ls arbitrary: hf it ml)
  case Nil
  show ?case by simp
next
  case (Cons l ls)
  from update_step_total [OF assms, of py host l hf it ml]
  obtain hf1 it1 l1 where s: "update_step py host new_ip l (hf, it, ml) = Inr (hf1, it1, ml @ [l1])"
    and m: "hf \<longrightarrow> hf1"
    by blast
  from Cons.IH [of hf1 it1 "ml @ [l1]"]
  obtain hf2 it2 ls2 where r: "update_loop py host new_ip ls (hf1, it1, ml @ [l1])
        = Inr (hf2, it2, (ml @ [l1]) @ ls2)"
    and n: "length ls2 = length ls" and m2: "hf1 \<longrightarrow> hf2"
    by blast
  have "update_loop py host new_ip (l # ls) (hf, it, ml) = Inr (hf2, it2, ml @ (l1 # ls2))"
    using s r by simp
  moreover have "length (l1 # ls2) = length (l # ls)"
    using n by simp
  ultimately show ?case
    using m m2 by blast
qed

lemma update_step_target:
  assumes "matches True (host_name_re host) h"
  shows "update_step py host new_ip h (hf, it, ml) = Inr (True, True, ml @ [h])"
proof -
  have d: "matches True host_decl_re h"
    using assms by (rule host_name_is_decl)
  then have "\<not> matches True hostname_decl_re h"
    by (rule host_decl_not_hostname)
  with d assms show ?thesis
    by (simp add: update_step_def Let_def)
qed









text \<open>
  Two kinds of line pass the \<open>HostName\<close> test of the loop and are not rewritten in the way
  the specification describes. On a \<open>HostName\<close> line without a value, \<open>\s+\<close> takes the
  line's newline, and \<open>new_ip\<close> lands at the start of the next line. A keyword in another
  letter case passes the test, which ignores case, and is left alone by the substitution,
  which does not.
\<close>

lemma update_hostname_line_without_value:
  "ssh_config_file
     (snd (update_hostname example_runtime example_manager ''a'' ''2.2.2.2''
             \<lparr>ssh_config_file =
                Some (''Host a'' @ [LF] @ ''    HostName '' @ [LF] @ ''    User bob'' @ [LF]),
              stdout = []\<rparr>))
     = Some (''Host a'' @ [LF] @ ''    HostName '' @ [LF] @ ''2.2.2.2'' @ ''    User bob'' @ [LF])"
  by code_simp

lemma update_hostname_lower_case_keyword:
  "ssh_config_file
     (snd (update_hostname example_runtime example_manager ''a'' ''2.2.2.2''
             \<lparr>ssh_config_file = Some (''Host a'' @ [LF] @ ''    hostname 10.0.0.1'' @ [LF]),
              stdout = []\<rparr>))
     = Some (''Host a'' @ [LF] @ ''    hostname 10.0.0.1'' @ [LF])"
  by code_simp



section \<open>Reading the file after \<open>add_host\<close>\<close>

lemma universal_newlines_no_CR: "CR \<notin> set (universal_newlines s)"
  by (induction s rule: universal_newlines.induct) auto

lemma universal_newlines_snoc_LF:
  "universal_newlines (a @ [LF]) =
     (if a \<noteq> [] \<and> last a = CR then universal_newlines a else universal_newlines a @ [LF])"
  by (induction a rule: universal_newlines.induct) auto

lemma universal_newlines_ends_LF:
  "\<exists>y. universal_newlines (a @ [LF]) = y @ [LF]"
proof (induction a rule: universal_newlines.induct)
  case 1
  show ?case by simp
next
  case (2 c)
  show ?case by simp
next
  case (3 c d cs)
  then show ?case by (cases cs) auto
qed

lemma split_lines_not_Nil: "s \<noteq> [] \<Longrightarrow> split_lines s \<noteq> []"
proof (cases s)
  case Nil
  moreover assume "s \<noteq> []"
  ultimately show ?thesis by simp
next
  case (Cons c cs)
  then show ?thesis
    by (cases "split_lines cs") simp_all
qed

lemma split_lines_after_LF:
  "split_lines ((y @ [LF]) @ z) = split_lines (y @ [LF]) @ split_lines z"
proof (induction y)
  case Nil
  show ?case by simp
next
  case (Cons c y)
  have "split_lines (y @ [LF]) \<noteq> []"
    by (rule split_lines_not_Nil) simp
  then obtain l ls where "split_lines (y @ [LF]) = l # ls"
    by (cases "split_lines (y @ [LF])") auto
  then show ?case
    using Cons by simp
qed

lemma split_lines_snoc_LF:
  "split_lines (t @ [LF]) =
     (if t = [] \<or> last t = LF then split_lines t @ [[LF]]
      else butlast (split_lines t) @ [last (split_lines t) @ [LF]])"
proof (induction t)
  case Nil
  show ?case by simp
next
  case (Cons c t)
  show ?case
  proof (cases "t = []")
    case True
    then show ?thesis by simp
  next
    case False
    then have ne: "split_lines t \<noteq> []"
      by (rule split_lines_not_Nil)
    then obtain l ls where s: "split_lines t = l # ls"
      by (cases "split_lines t") auto
    have ne2: "split_lines (t @ [LF]) \<noteq> []"
      by (rule split_lines_not_Nil) simp
    show ?thesis
      using Cons False s ne2 by (auto split: list.splits simp: butlast_append)
  qed
qed

text \<open>
  Appending \<open>\n\<close> to a text changes at most its last line and adds at most one: every line
  before the last is a line of the text.
\<close>

lemma lines_with_LF:
  "split_lines (universal_newlines (content @ [LF])) \<noteq> []
   \<and> set (butlast (split_lines (universal_newlines (content @ [LF])))) \<subseteq> set (readlines content)"
proof (cases "content \<noteq> [] \<and> last content = CR")
  case True
  then have e: "universal_newlines (content @ [LF]) = universal_newlines content"
    by (simp add: universal_newlines_snoc_LF)
  obtain y where "universal_newlines (content @ [LF]) = y @ [LF]"
    using universal_newlines_ends_LF by blast
  then have "split_lines (universal_newlines (content @ [LF])) \<noteq> []"
    using split_lines_not_Nil [of "y @ [LF]"] by simp
  then show ?thesis
    using e by (auto simp: readlines_def dest: in_set_butlastD)
next
  case False
  then have e: "universal_newlines (content @ [LF]) = universal_newlines content @ [LF]"
    by (simp add: universal_newlines_snoc_LF)
  have "split_lines (universal_newlines content @ [LF]) \<noteq> []"
    by (rule split_lines_not_Nil) simp
  moreover have "set (butlast (split_lines (universal_newlines content @ [LF])))
                   \<subseteq> set (split_lines (universal_newlines content))"
    by (auto simp: split_lines_snoc_LF dest: in_set_butlastD)
  ultimately show ?thesis
    using e by (simp add: readlines_def)
qed

lemma readlines_after_add_host:
  assumes "LF \<notin> set name" and "CR \<notin> set name"
  shows "\<exists>tail. readlines (content @ new_entry m name) =
           split_lines (universal_newlines (content @ [LF]))
           @ [''Host '' @ name @ [LF], ''    HostName 1.1.1.1'' @ [LF]] @ tail"
proof -
  let ?h = "''Host '' @ name" and ?n = "''    HostName 1.1.1.1''"
  obtain rest where ne: "content @ new_entry m name = content @ LF # ?h @ LF # ?n @ LF # rest"
    by (simp add: new_entry_def Let_def)
  obtain y where y: "universal_newlines (content @ [LF]) = y @ [LF]"
    using universal_newlines_ends_LF by blast
  have c1: "universal_newlines (?h @ [LF]) = ?h @ [LF]"
    using assms(2) by (intro universal_newlines_id) simp
  have c2: "universal_newlines (?n @ [LF]) = ?n @ [LF]"
    by (intro universal_newlines_id) simp
  have "universal_newlines (content @ LF # ?h @ LF # ?n @ LF # rest) =
          universal_newlines (content @ [LF]) @ universal_newlines (?h @ LF # ?n @ LF # rest)"
    by (rule universal_newlines_LF)
  also have "universal_newlines (?h @ LF # ?n @ LF # rest) =
          universal_newlines (?h @ [LF]) @ universal_newlines (?n @ LF # rest)"
    by (rule universal_newlines_LF)
  also have "universal_newlines (?n @ LF # rest) =
          universal_newlines (?n @ [LF]) @ universal_newlines rest"
    by (rule universal_newlines_LF)
  finally have u: "universal_newlines (content @ new_entry m name) =
          (y @ [LF]) @ (?h @ LF # (?n @ LF # universal_newlines rest))"
    unfolding ne y c1 c2 by simp
  have l1: "LF \<notin> set ?h" and l2: "LF \<notin> set ?n"
    using assms(1) by simp_all
  have "split_lines ((y @ [LF]) @ (?h @ LF # (?n @ LF # universal_newlines rest))) =
        split_lines (y @ [LF]) @ split_lines (?h @ LF # (?n @ LF # universal_newlines rest))"
    by (rule split_lines_after_LF)
  also have "split_lines (?h @ LF # (?n @ LF # universal_newlines rest)) =
        (?h @ [LF]) # split_lines (?n @ LF # universal_newlines rest)"
    using l1 by (rule split_lines_line)
  also have "split_lines (?n @ LF # universal_newlines rest) =
        (?n @ [LF]) # split_lines (universal_newlines rest)"
    using l2 by (rule split_lines_line)
  finally have "readlines (content @ new_entry m name) =
        split_lines (universal_newlines (content @ [LF]))
        @ [?h @ [LF], ?n @ [LF]] @ split_lines (universal_newlines rest)"
    unfolding readlines_def u y by simp
  then show ?thesis
    by auto
qed

section \<open>\<open>update_hostname\<close> after \<open>add_host\<close>\<close>

lemma update_step_not_in_target:
  "\<exists>hf' it'. update_step py host new_ip l (hf, False, ml) = Inr (hf', it', ml @ [l])"
proof (cases "matches True host_decl_re l")
  case True
  then have "\<not> matches True hostname_decl_re l"
    by (rule host_decl_not_hostname)
  with True show ?thesis
    by (simp add: update_step_def Let_def)
next
  case False
  then show ?thesis
    by (auto simp: update_step_def Let_def)
qed

lemma update_step_placeholder:
  assumes "BACKSLASH \<notin> set ip"
  shows "update_step py host ip (''    HostName 1.1.1.1'' @ [LF]) (hf, True, ml) =
           Inr (hf, True, ml @ [''    HostName '' @ ip @ [LF]])"
proof -
  let ?n = "''    HostName 1.1.1.1'' @ [LF]"
  have s: "spec_hostname_line ?n"
    by code_simp
  have nd: "\<not> matches True host_decl_re ?n"
    by code_simp
  have hn: "matches True hostname_decl_re ?n"
    using s by (rule spec_hostname_line_matches)
  have v: "spec_set_hostname ip ?n = ''    HostName '' @ ip @ [LF]"
    by (simp add: spec_set_hostname_def py_isspace_def)
  have "hostname_sub py ip ?n = Inr (''    HostName '' @ ip @ [LF])"
    using hostname_sub_spec [OF s assms, of py] v by simp
  then show ?thesis
    using nd hn by (simp add: update_step_def Let_def)
qed

text \<open>The line that \<open>add_host\<close> writes for a name is one that its own pattern matches.\<close>

lemma host_line_matches: "matches ic (host_name_re name) (''Host '' @ name @ [LF])"
proof -
  have e: "run ic [Star Whitespace, Dollar] (5 + length name) [LF] [] \<noteq> None"
    by (simp add: py_isspace_def)
  have "run ic (literal name @ [Star Whitespace, Dollar]) 5 (name @ [LF]) []
          = run ic [Star Whitespace, Dollar] (5 + length name) [LF] []"
    by (rule run_literal)
  with e have "run ic (literal name @ [Star Whitespace, Dollar]) 5 (name @ [LF]) [] \<noteq> None"
    by simp
  then have "run ic (Star Whitespace # literal name @ [Star Whitespace, Dollar]) 5 (name @ [LF]) []
               \<noteq> None"
    by (rule run_Star_some)
  then show ?thesis
    by (cases ic; simp add: matches_def re_match_def host_name_re_def re_escape_def
        literal_def [of "''Host''"] py_isspace_def py_lower_def eval_nat_numeral)
qed

lemma update_loop_added_block:
  assumes "BACKSLASH \<notin> set ip"
    and "update_loop py name ip before (False, False, []) = Inr (hf, it, before')"
  shows "\<exists>it' after'. update_loop py name ip
             (before @ [''Host '' @ name @ [LF], ''    HostName 1.1.1.1'' @ [LF]] @ after)
             (False, False, []) =
           Inr (True, it',
                before' @ [''Host '' @ name @ [LF], ''    HostName '' @ ip @ [LF]] @ after')"
proof -
  let ?h = "''Host '' @ name @ [LF]"
  have t: "matches True (host_name_re name) ?h"
    by (rule host_line_matches)
  have h: "update_step py name ip ?h (hf, it, before') = Inr (True, True, before' @ [?h])"
    using t by (rule update_step_target)
  have n: "update_step py name ip (''    HostName 1.1.1.1'' @ [LF]) (True, True, before' @ [?h]) =
           Inr (True, True, (before' @ [?h]) @ [''    HostName '' @ ip @ [LF]])"
    using assms(1) by (rule update_step_placeholder)
  from update_loop_total [OF assms(1), of py name after True True
         "(before' @ [?h]) @ [''    HostName '' @ ip @ [LF]]"]
  obtain it' after' where
    a: "update_loop py name ip after (True, True, (before' @ [?h]) @ [''    HostName '' @ ip @ [LF]])
          = Inr (True, it', ((before' @ [?h]) @ [''    HostName '' @ ip @ [LF]]) @ after')"
    by auto
  have "update_loop py name ip (before @ [?h, ''    HostName 1.1.1.1'' @ [LF]] @ after)
             (False, False, []) =
           Inr (True, it', before' @ [?h, ''    HostName '' @ ip @ [LF]] @ after')"
    using assms(2) h n a by (simp add: update_loop_append)
  then show ?thesis
    by blast
qed

text \<open>
  When no line of the old file matches the name, the lines before the added block go
  through the loop as they are.
\<close>

lemma update_loop_old_lines:
  assumes "\<forall>l\<in>set (readlines content). \<not> matches True (host_name_re name) l"
  shows "\<exists>hf it. update_loop py name ip (split_lines (universal_newlines (content @ [LF])))
                     (False, False, []) =
                   Inr (hf, it, split_lines (universal_newlines (content @ [LF])))"
proof -
  let ?P = "split_lines (universal_newlines (content @ [LF]))"
  from lines_with_LF [of content] have ne: "?P \<noteq> []"
    and sub: "set (butlast ?P) \<subseteq> set (readlines content)"
    by simp_all
  from sub assms have "\<forall>l\<in>set (butlast ?P). \<not> matches True (host_name_re name) l"
    by blast
  then have b: "update_loop py name ip (butlast ?P) (False, False, []) =
                Inr (False, False, [] @ butlast ?P)"
    by (rule update_loop_no_target)
  from update_step_not_in_target [of py name ip "last ?P" False "butlast ?P"]
  obtain hf it where l: "update_step py name ip (last ?P) (False, False, butlast ?P) =
                         Inr (hf, it, butlast ?P @ [last ?P])"
    by blast
  have "update_loop py name ip (butlast ?P @ [last ?P]) (False, False, []) =
          Inr (hf, it, butlast ?P @ [last ?P])"
    using b l by (simp add: update_loop_append)
  then show ?thesis
    using ne by auto
qed

section \<open>\<open>add_host\<close>\<close>

lemma add_host_new:
  assumes "ssh_config_file w = Some content"
    and "\<forall>l\<in>set (readlines content). \<not> matches False (host_name_re name) l"
  shows "add_host py m name w =
           (Inr True,
            print (''Successfully added new host '' @ quoted name @ '' to '' @ ssh_config_path m)
              (w\<lparr>ssh_config_file := Some (content @ new_entry m name)\<rparr>))"
  using assms by (simp add: add_host_def list_ex_iff)

lemma update_hostname_after_add:
  assumes "ssh_config_file w = Some (content @ new_entry m name)"
    and "LF \<notin> set name" and "CR \<notin> set name" and "BACKSLASH \<notin> set ip"
    and "update_loop py name ip (split_lines (universal_newlines (content @ [LF])))
           (False, False, []) = Inr (hf, it, before')"
  shows "\<exists>after. update_hostname py m name ip w =
           (Inr True,
            print (''Successfully updated HostName for '' @ quoted name @ '' to ''
                     @ quoted ip @ '' in '' @ ssh_config_path m)
              (w\<lparr>ssh_config_file :=
                   Some (concat before' @ ''Host '' @ name @ [LF]
                         @ ''    HostName '' @ ip @ [LF] @ after)\<rparr>))"
proof -
  from readlines_after_add_host [OF assms(2,3), of content m]
  obtain tail where r: "readlines (content @ new_entry m name) =
           split_lines (universal_newlines (content @ [LF]))
           @ [''Host '' @ name @ [LF], ''    HostName 1.1.1.1'' @ [LF]] @ tail"
    by blast
  from update_loop_added_block [OF assms(4,5), of tail]
  obtain it' after' where "update_loop py name ip
             (split_lines (universal_newlines (content @ [LF]))
              @ [''Host '' @ name @ [LF], ''    HostName 1.1.1.1'' @ [LF]] @ tail)
             (False, False, []) =
           Inr (True, it',
                before' @ [''Host '' @ name @ [LF], ''    HostName '' @ ip @ [LF]] @ after')"
    by blast
  then have "update_hostname py m name ip w =
           (Inr True,
            print (''Successfully updated HostName for '' @ quoted name @ '' to ''
                     @ quoted ip @ '' in '' @ ssh_config_path m)
              (w\<lparr>ssh_config_file :=
                   Some (concat before' @ ''Host '' @ name @ [LF]
                         @ ''    HostName '' @ ip @ [LF] @ concat after')\<rparr>))"
    using assms(1) r by (simp add: update_hostname_def)
  then show ?thesis
    by blast
qed

text \<open>
  C6 as stated fails for a name that holds a line break: the \<open>Host\<close> line that \<open>add_host\<close>
  writes is then read back as two lines, neither of which matches the name, so
  \<open>update_hostname\<close> does not find the host and a second \<open>add_host\<close> succeeds again.
\<close>

theorem add_host_line_break_counterexample:
  "fst (add_host example_runtime example_manager (''c'' @ [LF] @ ''d'') example_world) = Inr True
   \<and> fst (update_hostname example_runtime example_manager (''c'' @ [LF] @ ''d'') ''9.9.9.9''
            (snd (add_host example_runtime example_manager (''c'' @ [LF] @ ''d'') example_world)))
       = Inr False
   \<and> fst (add_host example_runtime example_manager (''c'' @ [LF] @ ''d'')
            (snd (add_host example_runtime example_manager (''c'' @ [LF] @ ''d'') example_world)))
       = Inr True"
  by code_simp

text \<open>
  C6, amended. Let the name hold no line break (\<open>\n\<close> or \<open>\r\<close>) and let no line of the file
  match \<open>^\s*Host\s+\<close>, the escaped name and \<open>\s*$\<close>. Then \<open>add_host\<close> returns \<open>True\<close> and
  appends its block, which starts with an empty line, the line \<open>Host\<close> with the name and the
  placeholder line \<open>HostName 1.1.1.1\<close>, and ends with the line \<open>User\<close> with the user of
  the settings. On the resulting file, \<open>update_hostname\<close> for the same name and an address
  without a backslash returns \<open>True\<close> and writes the \<open>Host\<close> line followed by the placeholder
  line rewritten to the address; and a second \<open>add_host\<close> for the name prints the
  "already exists" error, returns \<open>False\<close> and leaves the file as it is.
\<close>

theorem add_host_then_update:
  assumes "ssh_config_file w = Some content"
    and "LF \<notin> set name" and "CR \<notin> set name"
    and "\<forall>l\<in>set (readlines content). \<not> matches False (host_name_re name) l"
  shows "add_host py m name w =
           (Inr True,
            print (''Successfully added new host '' @ quoted name @ '' to '' @ ssh_config_path m)
              (w\<lparr>ssh_config_file := Some (content @ new_entry m name)\<rparr>))
         \<and> (\<exists>middle. new_entry m name =
               [LF] @ ''Host '' @ name @ [LF] @ ''    HostName 1.1.1.1'' @ [LF] @ middle
               @ ''    User '' @ get_ssh_user m @ [LF])
         \<and> (BACKSLASH \<notin> set ip \<longrightarrow>
              (\<exists>before after.
                 update_hostname py m name ip (snd (add_host py m name w)) =
                   (Inr True,
                    print (''Successfully updated HostName for '' @ quoted name @ '' to ''
                             @ quoted ip @ '' in '' @ ssh_config_path m)
                      ((snd (add_host py m name w))\<lparr>ssh_config_file :=
                           Some (before @ ''Host '' @ name @ [LF]
                                 @ ''    HostName '' @ ip @ [LF] @ after)\<rparr>))))
         \<and> add_host py m name (snd (add_host py m name w)) =
             (Inr False,
              print (''Error: Host '' @ quoted name @ '' already exists in ''
                       @ ssh_config_path m @ ''!'')
                (snd (add_host py m name w)))"
proof -
  let ?w' = "print (''Successfully added new host '' @ quoted name @ '' to '' @ ssh_config_path m)
              (w\<lparr>ssh_config_file := Some (content @ new_entry m name)\<rparr>)"
  have a: "add_host py m name w = (Inr True, ?w')"
    using assms(1,4) by (rule add_host_new)
  have f': "ssh_config_file ?w' = Some (content @ new_entry m name)"
    by (simp add: print_def)
  have e: "\<exists>middle. new_entry m name =
               [LF] @ ''Host '' @ name @ [LF] @ ''    HostName 1.1.1.1'' @ [LF] @ middle
               @ ''    User '' @ get_ssh_user m @ [LF]"
    by (simp add: new_entry_def Let_def)
  have u: "\<exists>before after.
             update_hostname py m name ip ?w' =
               (Inr True,
                print (''Successfully updated HostName for '' @ quoted name @ '' to ''
                         @ quoted ip @ '' in '' @ ssh_config_path m)
                  (?w'\<lparr>ssh_config_file :=
                       Some (before @ ''Host '' @ name @ [LF]
                             @ ''    HostName '' @ ip @ [LF] @ after)\<rparr>))"
    if nb: "BACKSLASH \<notin> set ip"
  proof -
    from update_loop_total [OF nb, of py name "split_lines (universal_newlines (content @ [LF]))"
           False False "[]"]
    obtain hf it before' where "update_loop py name ip
        (split_lines (universal_newlines (content @ [LF]))) (False, False, []) = Inr (hf, it, before')"
      by auto
    from update_hostname_after_add [OF f' assms(2,3) nb this]
    show ?thesis by blast
  qed
  from readlines_after_add_host [OF assms(2,3), of content m]
  obtain tail where r: "readlines (content @ new_entry m name) =
           split_lines (universal_newlines (content @ [LF]))
           @ [''Host '' @ name @ [LF], ''    HostName 1.1.1.1'' @ [LF]] @ tail"
    by blast
  have "matches False (host_name_re name) (''Host '' @ name @ [LF])"
    by (rule host_line_matches)
  then have "\<exists>l\<in>set (readlines (content @ new_entry m name)). matches False (host_name_re name) l"
    using r by auto
  then have again: "add_host py m name ?w' =
             (Inr False,
              print (''Error: Host '' @ quoted name @ '' already exists in ''
                       @ ssh_config_path m @ ''!'') ?w')"
    using f' by (simp add: add_host_def list_ex_iff)
  show ?thesis
    using a e u again by simp
qed


theorem add_host_then_update_witness:
  "fst (add_host example_runtime example_manager ''c'' example_world) = Inr True
   \<and> ssh_config_file (snd (add_host example_runtime example_manager ''c'' example_world))
       = Some (two_block_config @ new_entry example_manager ''c'')
   \<and> fst (update_hostname example_runtime example_manager ''c'' ''9.9.9.9''
            (snd (add_host example_runtime example_manager ''c'' example_world))) = Inr True
   \<and> (\<exists>before after.
         ssh_config_file
           (snd (update_hostname example_runtime example_manager ''c'' ''9.9.9.9''
                   (snd (add_host example_runtime example_manager ''c'' example_world))))
         = Some (before @ ''Host c'' @ [LF] @ ''    HostName 9.9.9.9'' @ [LF] @ after))
   \<and> fst (add_host example_runtime example_manager ''c''
            (snd (add_host example_runtime example_manager ''c'' example_world))) = Inr False
   \<and> ssh_config_file
         (snd (add_host example_runtime example_manager ''c''
                 (snd (add_host example_runtime example_manager ''c'' example_world))))
       = Some (two_block_config @ new_entry example_manager ''c'')"
proof -
  have f: "ssh_config_file example_world = Some two_block_config"
    by (simp add: example_world_def)
  have l: "LF \<notin> set ''c''" and c: "CR \<notin> set ''c''" and b: "BACKSLASH \<notin> set ''9.9.9.9''"
    by simp_all
  have n: "\<forall>l\<in>set (readlines two_block_config). \<not> matches False (host_name_re ''c'') l"
    by code_simp
  note t = add_host_then_update [OF f l c n, of example_runtime example_manager "''9.9.9.9''"]
  from t have a: "add_host example_runtime example_manager ''c'' example_world =
           (Inr True,
            print (''Successfully added new host '' @ quoted ''c'' @ '' to ''
                     @ ssh_config_path example_manager)
              (example_world\<lparr>ssh_config_file :=
                 Some (two_block_config @ new_entry example_manager ''c'')\<rparr>))"
    by blast
  from t b obtain before after where
    u: "update_hostname example_runtime example_manager ''c'' ''9.9.9.9''
          (snd (add_host example_runtime example_manager ''c'' example_world)) =
        (Inr True,
         print (''Successfully updated HostName for '' @ quoted ''c'' @ '' to ''
                  @ quoted ''9.9.9.9'' @ '' in '' @ ssh_config_path example_manager)
           ((snd (add_host example_runtime example_manager ''c'' example_world))
              \<lparr>ssh_config_file :=
                 Some (before @ ''Host '' @ ''c'' @ [LF]
                       @ ''    HostName '' @ ''9.9.9.9'' @ [LF] @ after)\<rparr>))"
    by blast
  from t have g: "add_host example_runtime example_manager ''c''
          (snd (add_host example_runtime example_manager ''c'' example_world)) =
        (Inr False,
         print (''Error: Host '' @ quoted ''c'' @ '' already exists in ''
                  @ ssh_config_path example_manager @ ''!'')
           (snd (add_host example_runtime example_manager ''c'' example_world)))"
    by blast
  have u2: "ssh_config_file
           (snd (update_hostname example_runtime example_manager ''c'' ''9.9.9.9''
                   (snd (add_host example_runtime example_manager ''c'' example_world))))
         = Some ((before @ ''Host '') @ ''c'' @ [LF] @ ''    HostName 9.9.9.9'' @ [LF] @ after)"
    by (simp add: u print_def)
  have u3: "\<exists>before after.
         ssh_config_file
           (snd (update_hostname example_runtime example_manager ''c'' ''9.9.9.9''
                   (snd (add_host example_runtime example_manager ''c'' example_world))))
         = Some (before @ ''Host c'' @ [LF] @ ''    HostName 9.9.9.9'' @ [LF] @ after)"
    by (rule exI [of _ before], rule exI [of _ after]) (simp add: u2)
  have c1: "fst (add_host example_runtime example_manager ''c'' example_world) = Inr True"
    by (simp add: a)
  have c2: "ssh_config_file (snd (add_host example_runtime example_manager ''c'' example_world))
       = Some (two_block_config @ new_entry example_manager ''c'')"
    by (simp add: a print_def)
  have c3: "fst (update_hostname example_runtime example_manager ''c'' ''9.9.9.9''
            (snd (add_host example_runtime example_manager ''c'' example_world))) = Inr True"
    by (simp add: u)
  have c5: "fst (add_host example_runtime example_manager ''c''
            (snd (add_host example_runtime example_manager ''c'' example_world))) = Inr False"
    by (simp add: g)
  have "ssh_config_file
         (snd (add_host example_runtime example_manager ''c''
                 (snd (add_host example_runtime example_manager ''c'' example_world))))
       = ssh_config_file (snd (add_host example_runtime example_manager ''c'' example_world))"
    by (simp add: g print_def)
  with c2 have c6: "ssh_config_file
         (snd (add_host example_runtime example_manager ''c''
                 (snd (add_host example_runtime example_manager ''c'' example_world))))
       = Some (two_block_config @ new_entry example_manager ''c'')"
    by simp
  show ?thesis
    using c1 c2 c3 u3 c5 c6 by blast
qed

section \<open>\<open>start_vm\<close>\<close>

lemma start_vm_ssh_steps:
  assumes "get_project_and_zone m = Inr (project, zone)"
    and "\<not> py_in ''Error'' (start_instance py instance project zone)"
    and "\<not> py_in ''Error'' (get_public_ip py instance project zone)"
  shows "start_vm py m instance w =
      (case add_host py m instance
              (print (''Public IP obtained: '' @ get_public_ip py instance project zone)
                 (print (''Retrieving public IP for VM: '' @ instance @ ''...'')
                    (print (start_instance py instance project zone)
                       (print (''Starting VM: '' @ instance @ ''...'') w)))) of
         (Inl e, w5) \<Rightarrow> except_Exception e w5
       | (Inr added, w5) \<Rightarrow>
           (case update_hostname py m instance (get_public_ip py instance project zone) w5 of
              (Inl e, w6) \<Rightarrow> except_Exception e w6
            | (Inr update_success, w6) \<Rightarrow>
                if update_success
                then (Inr True,
                      print (''Successfully updated SSH config for '' @ instance
                               @ '' with new IP: '' @ get_public_ip py instance project zone) w6)
                else (Inr False, w6)))"
  using assms by (simp add: start_vm_def Let_def)

lemma matches_ignorecase: "matches False p l \<Longrightarrow> matches True p l"
  unfolding matches_def re_match_def by (rule run_ignorecase)

text \<open>
  C8. The file exists and none of its lines declares the host \<open>d\<close> (none matches
  \<open>^\s*Host\s+d\s*$\<close>, ignoring case); project and zone are set; the start command returns a
  text without \<open>Error\<close> and the address query returns \<open>5.5.5.5\<close>. Then \<open>start_vm("d")\<close>
  returns \<open>True\<close>, and the final file is the old text as read, ended by a newline, followed
  by the line \<open>Host d\<close>, the line \<open>HostName 5.5.5.5\<close> and the rest of the added block.
\<close>

theorem start_vm_adds_and_updates:
  assumes "ssh_config_file w = Some content"
    and "\<forall>l\<in>set (readlines content). \<not> matches True (host_name_re ''d'') l"
    and "get_project_and_zone m = Inr (project, zone)"
    and "\<not> py_in ''Error'' (start_instance py ''d'' project zone)"
    and "get_public_ip py ''d'' project zone = ''5.5.5.5''"
  shows "fst (start_vm py m ''d'' w) = Inr True
         \<and> (\<exists>before after.
               ssh_config_file (snd (start_vm py m ''d'' w)) =
                 Some (before @ [LF] @ ''Host d'' @ [LF] @ ''    HostName 5.5.5.5'' @ [LF] @ after)
               \<and> before @ [LF] = universal_newlines (content @ [LF]))"
proof -
  let ?w4 = "print (''Public IP obtained: '' @ get_public_ip py ''d'' project zone)
               (print (''Retrieving public IP for VM: '' @ ''d'' @ ''...'')
                  (print (start_instance py ''d'' project zone)
                     (print (''Starting VM: '' @ ''d'' @ ''...'') w)))"
  let ?w5 = "print (''Successfully added new host '' @ quoted ''d'' @ '' to '' @ ssh_config_path m)
               (?w4\<lparr>ssh_config_file := Some (content @ new_entry m ''d'')\<rparr>)"
  have ne: "\<not> py_in ''Error'' (get_public_ip py ''d'' project zone)"
    by (simp add: assms(5))
  have f4: "ssh_config_file ?w4 = Some content"
    using assms(1) by (simp add: print_def)
  have cs: "\<forall>l\<in>set (readlines content). \<not> matches False (host_name_re ''d'') l"
    using assms(2) matches_ignorecase by blast
  have a: "add_host py m ''d'' ?w4 = (Inr True, ?w5)"
    using f4 cs by (rule add_host_new)
  have f5: "ssh_config_file ?w5 = Some (content @ new_entry m ''d'')"
    by (simp add: print_def)
  have l: "LF \<notin> set ''d''" and c: "CR \<notin> set ''d''" and b: "BACKSLASH \<notin> set ''5.5.5.5''"
    by simp_all
  from update_loop_old_lines [OF assms(2), of py "''5.5.5.5''"]
  obtain hf it where old: "update_loop py ''d'' ''5.5.5.5''
        (split_lines (universal_newlines (content @ [LF]))) (False, False, []) =
      Inr (hf, it, split_lines (universal_newlines (content @ [LF])))"
    by blast
  from update_hostname_after_add [OF f5 l c b old]
  obtain after where u: "update_hostname py m ''d'' ''5.5.5.5'' ?w5 =
           (Inr True,
            print (''Successfully updated HostName for '' @ quoted ''d'' @ '' to ''
                     @ quoted ''5.5.5.5'' @ '' in '' @ ssh_config_path m)
              (?w5\<lparr>ssh_config_file :=
                   Some (concat (split_lines (universal_newlines (content @ [LF])))
                         @ ''Host '' @ ''d'' @ [LF]
                         @ ''    HostName '' @ ''5.5.5.5'' @ [LF] @ after)\<rparr>))"
    by blast
  obtain before where y: "universal_newlines (content @ [LF]) = before @ [LF]"
    using universal_newlines_ends_LF by blast
  have sv: "start_vm py m ''d'' w =
      (Inr True,
       print (''Successfully updated SSH config for '' @ ''d'' @ '' with new IP: '' @ ''5.5.5.5'')
         (print (''Successfully updated HostName for '' @ quoted ''d'' @ '' to ''
                     @ quoted ''5.5.5.5'' @ '' in '' @ ssh_config_path m)
              (?w5\<lparr>ssh_config_file :=
                   Some (concat (split_lines (universal_newlines (content @ [LF])))
                         @ ''Host '' @ ''d'' @ [LF]
                         @ ''    HostName '' @ ''5.5.5.5'' @ [LF] @ after)\<rparr>)))"
    using start_vm_ssh_steps [OF assms(3,4) ne, of w] a u
    by (simp add: assms(5))
  have "ssh_config_file (snd (start_vm py m ''d'' w)) =
          Some (before @ [LF] @ ''Host d'' @ [LF] @ ''    HostName 5.5.5.5'' @ [LF] @ after)"
    unfolding sv by (simp add: print_def concat_split_lines y)
  moreover have "fst (start_vm py m ''d'' w) = Inr True"
    unfolding sv by simp
  ultimately show ?thesis
    using y by auto
qed


theorem start_vm_adds_and_updates_witness:
  "fst (start_vm example_runtime example_manager ''d'' example_world) = Inr True
   \<and> (\<exists>after.
         ssh_config_file (snd (start_vm example_runtime example_manager ''d'' example_world)) =
           Some (two_block_config @ [LF] @ ''Host d'' @ [LF] @ ''    HostName 5.5.5.5'' @ [LF]
                 @ after))"
proof -
  have f: "ssh_config_file example_world = Some two_block_config"
    by (simp add: example_world_def)
  have n: "\<forall>l\<in>set (readlines two_block_config). \<not> matches True (host_name_re ''d'') l"
    by code_simp
  have pz: "get_project_and_zone example_manager = Inr (''p'', ''z'')"
    by (simp add: get_project_and_zone_def example_manager_def)
  have s: "\<not> py_in ''Error'' (start_instance example_runtime ''d'' ''p'' ''z'')"
    by (simp add: start_instance_def run_command_def example_runtime_def py_strip_def
        py_isspace_def)
  have g: "get_public_ip example_runtime ''d'' ''p'' ''z'' = ''5.5.5.5''"
    by (simp add: get_public_ip_def run_command_def example_runtime_def py_strip_def
        py_isspace_def)
  have u: "universal_newlines (two_block_config @ [LF]) = two_block_config @ [LF]"
    by (rule universal_newlines_id) (simp add: two_block_config_def)
  from start_vm_adds_and_updates [OF f n pz s g]
  obtain before after where r: "fst (start_vm example_runtime example_manager ''d'' example_world) = Inr True"
    and c: "ssh_config_file (snd (start_vm example_runtime example_manager ''d'' example_world)) =
                 Some (before @ [LF] @ ''Host d'' @ [LF] @ ''    HostName 5.5.5.5'' @ [LF] @ after)"
    and b: "before @ [LF] = universal_newlines (two_block_config @ [LF])"
    by blast
  from b u have "before = two_block_config"
    by simp
  with c have "ssh_config_file (snd (start_vm example_runtime example_manager ''d'' example_world)) =
           Some (two_block_config @ [LF] @ ''Host d'' @ [LF] @ ''    HostName 5.5.5.5'' @ [LF]
                 @ after)"
    by simp
  with r show ?thesis
    by blast
qed

end
